theory Spec2Isabelle
  imports
    Main
    "HOL-Library.Char_ord"
    "HOL-Library.List_Lexorder"
    "HOL-Library.FSet"
    "HOL-Library.Word"
begin

unbundle bit_operations_syntax

section \<open>Strings of the Go standard library\<close>

text \<open>
  A Go \<^verbatim>\<open>string\<close> is a sequence of bytes, here \<^typ>\<open>string\<close> (a list of 8-bit
  characters). Go compares strings bytewise and lexicographically; that is the order of
  \<^typ>\<open>char list\<close> given by the library's lexicographic order on lists over the order
  of characters by their byte value.

  The functions of package \<^verbatim>\<open>strings\<close> that \<^verbatim>\<open>main.go\<close> calls are not part of the
  repository. They are written out here after the documentation of the Go standard
  library.
\<close>

text \<open>\<^verbatim>\<open>strings.HasPrefix(s, prefix)\<close>:
  \<^verbatim>\<open>len(s) >= len(prefix) && s[:len(prefix)] == prefix\<close>.\<close>

definition HasPrefix :: "string \<Rightarrow> string \<Rightarrow> bool" where
  "HasPrefix s pre \<longleftrightarrow> length pre \<le> length s \<and> take (length pre) s = pre"

text \<open>\<^verbatim>\<open>strings.HasSuffix(s, suffix)\<close>:
  \<^verbatim>\<open>len(s) >= len(suffix) && s[len(s)-len(suffix):] == suffix\<close>.\<close>

definition HasSuffix :: "string \<Rightarrow> string \<Rightarrow> bool" where
  "HasSuffix s suf \<longleftrightarrow> length suf \<le> length s \<and> drop (length s - length suf) s = suf"

text \<open>\<^verbatim>\<open>strings.Contains(s, substr)\<close>: \<^verbatim>\<open>substr\<close> occurs at some offset of \<^verbatim>\<open>s\<close>.\<close>

fun Contains :: "string \<Rightarrow> string \<Rightarrow> bool" where
  "Contains [] substr = (substr = [])"
| "Contains (c # s) substr = (HasPrefix (c # s) substr \<or> Contains s substr)"

text \<open>
  \<^verbatim>\<open>strings.ToLower\<close> and \<^verbatim>\<open>strings.EqualFold\<close> work on the bytes themselves as long as
  the strings are ASCII, and consult the Unicode tables of the Go library from the first
  byte above 127 on. The tables are not part of the repository; what the library
  computes with them is a parameter \<open>U\<close> of the model:
  \<^item> \<open>mapToLower U s\<close> is \<^verbatim>\<open>strings.Map(unicode.ToLower, s)\<close>, which \<^verbatim>\<open>ToLower\<close> returns for a
    string \<open>s\<close> that has a byte above 127;
  \<^item> \<open>foldUnicode U s t\<close> is the result of the second loop of \<^verbatim>\<open>EqualFold\<close> (the one that
    decodes runes and follows \<^verbatim>\<open>unicode.SimpleFold\<close>) on the rests \<open>s\<close> and \<open>t\<close> of the two
    strings, which \<^verbatim>\<open>EqualFold\<close> enters at the first position where one of them has a byte
    above 127.
  Every theorem below holds for every \<open>U\<close>.
\<close>

record unicodeLib =
  mapToLower :: "string \<Rightarrow> string"
  foldUnicode :: "string \<Rightarrow> string \<Rightarrow> bool"

text \<open>\<^verbatim>\<open>c < utf8.RuneSelf\<close> for every byte of the string.\<close>

definition isASCII :: "string \<Rightarrow> bool" where
  "isASCII s = list_all (\<lambda>c. (of_char c :: nat) < 128) s"

text \<open>The ASCII letters \<^verbatim>\<open>A\<close> to \<^verbatim>\<open>Z\<close> (bytes 65 to 90) become \<^verbatim>\<open>a\<close> to \<^verbatim>\<open>z\<close>:
  \<^verbatim>\<open>c += 'a' - 'A'\<close>.\<close>

definition lowerByte :: "char \<Rightarrow> char" where
  "lowerByte c =
     (let n = (of_char c :: nat) in if 65 \<le> n \<and> n \<le> 90 then char_of (n + 32) else c)"

text \<open>\<^verbatim>\<open>strings.ToLower(s)\<close>: an ASCII string is lower-cased byte by byte; any other string
  goes through the Unicode tables.\<close>

definition ToLower :: "unicodeLib \<Rightarrow> string \<Rightarrow> string" where
  "ToLower U s = (if isASCII s then map lowerByte s else mapToLower U s)"

text \<open>
  \<^verbatim>\<open>strings.EqualFold(s, t)\<close>. The first loop compares byte by byte up to the shorter
  length. On a byte above 127 in either string it hands the rests of both strings to
  the Unicode loop. Two ASCII bytes match when they are equal or when the smaller one is
  an upper case letter and the larger one is that letter in lower case. When the loop
  comes to the end of a string, the result is whether the lengths are equal.
\<close>

fun EqualFold :: "unicodeLib \<Rightarrow> string \<Rightarrow> string \<Rightarrow> bool" where
  "EqualFold U (sr # s) (tr # t) =
     (if 128 \<le> (of_char sr :: nat) \<or> 128 \<le> (of_char tr :: nat)
      then foldUnicode U (sr # s) (tr # t)
      else if tr = sr then EqualFold U s t
      else
        (let lo = min (of_char sr :: nat) (of_char tr); hi = max (of_char sr :: nat) (of_char tr)
         in if 65 \<le> lo \<and> lo \<le> 90 \<and> hi = lo + 32 then EqualFold U s t else False))"
| "EqualFold U [] t = (t = [])"
| "EqualFold U (sr # s) [] = False"

text \<open>
  \<^verbatim>\<open>strings.TrimSpace(s)\<close> removes all leading and trailing white space, as defined by
  Unicode (\<^verbatim>\<open>unicode.IsSpace\<close>), from the UTF-8 string \<^verbatim>\<open>s\<close>. \<open>spaceRunes\<close> lists the
  UTF-8 encodings of the white space runes: the ASCII bytes tab, line feed, vertical
  tab, form feed, carriage return and space, then U+0085, U+00A0, U+1680, U+2000 to
  U+200A, U+2028, U+2029, U+202F, U+205F and U+3000. A byte sequence that is no valid
  encoding decodes to U+FFFD, which is no white space, so trimming stops there.
\<close>

definition asciiSpace :: "char list" where
  "asciiSpace = [CHR 0x09, CHR 0x0A, CHR 0x0B, CHR 0x0C, CHR 0x0D, CHR 0x20]"

definition spaceRunes :: "string list" where
  "spaceRunes =
     map (\<lambda>c. [c]) asciiSpace @
     [[CHR 0xC2, CHR 0x85], [CHR 0xC2, CHR 0xA0], [CHR 0xE1, CHR 0x9A, CHR 0x80]] @
     map (\<lambda>c. [CHR 0xE2, CHR 0x80, c])
       [CHR 0x80, CHR 0x81, CHR 0x82, CHR 0x83, CHR 0x84, CHR 0x85, CHR 0x86, CHR 0x87,
        CHR 0x88, CHR 0x89, CHR 0x8A, CHR 0xA8, CHR 0xA9, CHR 0xAF] @
     [[CHR 0xE2, CHR 0x81, CHR 0x9F], [CHR 0xE3, CHR 0x80, CHR 0x80]]"

text \<open>The width in bytes of the white space rune that \<open>s\<close> starts with (ends with);
  0 when its first (last) rune is no white space.\<close>

definition leadingSpace :: "string \<Rightarrow> nat" where
  "leadingSpace s = (case find (HasPrefix s) spaceRunes of None \<Rightarrow> 0 | Some sp \<Rightarrow> length sp)"

definition trailingSpace :: "string \<Rightarrow> nat" where
  "trailingSpace s = (case find (HasSuffix s) spaceRunes of None \<Rightarrow> 0 | Some sp \<Rightarrow> length sp)"

function TrimLeft :: "string \<Rightarrow> string" where
  "TrimLeft s = (let n = leadingSpace s in if n = 0 then s else TrimLeft (drop n s))"
  by pat_completeness auto
termination
proof (relation "measure length")
  show "wf (measure length)" by simp
next
  fix s n
  assume n: "n = leadingSpace s" "n \<noteq> 0"
  have "leadingSpace s \<le> length s"
    by (auto simp: leadingSpace_def HasPrefix_def split: option.splits
        dest: find_Some_iff [THEN iffD1])
  with n show "(drop n s, s) \<in> measure length"
    by (cases s) auto
qed

function TrimRight :: "string \<Rightarrow> string" where
  "TrimRight s =
     (let n = trailingSpace s in if n = 0 then s else TrimRight (take (length s - n) s))"
  by pat_completeness auto
termination
proof (relation "measure length")
  show "wf (measure length)" by simp
next
  fix s n
  assume n: "n = trailingSpace s" "n \<noteq> 0"
  have "trailingSpace s \<le> length s"
    by (auto simp: trailingSpace_def HasSuffix_def split: option.splits
        dest: find_Some_iff [THEN iffD1])
  with n show "(take (length s - n) s, s) \<in> measure length"
    by (cases s) auto
qed

declare TrimLeft.simps [simp del] TrimRight.simps [simp del]

definition TrimSpace :: "string \<Rightarrow> string" where
  "TrimSpace s = TrimRight (TrimLeft s)"

text \<open>\<^verbatim>\<open>strings.Split(s, "\n")\<close>: the pieces of \<open>s\<close> between line feeds; one piece more
  than there are line feeds, so the empty string gives one empty piece.\<close>

fun Split :: "string \<Rightarrow> string list" where
  "Split [] = [[]]"
| "Split (c # s) =
     (if c = CHR 0x0A then [] # Split s
      else (case Split s of [] \<Rightarrow> [[c]] | l # ls \<Rightarrow> (c # l) # ls))"

text \<open>\<^verbatim>\<open>sort.Strings\<close> sorts a slice of strings in increasing order.\<close>

definition sortStrings :: "string list \<Rightarrow> string list" where
  "sortStrings xs = sort xs"

section \<open>The record store\<close>

text \<open>
  The records are a Go \<^verbatim>\<open>map[string]struct{}\<close>, a finite set of strings. A \<^verbatim>\<open>range\<close>
  loop over a Go map visits every key once, in an order that Go leaves open. The loops
  below run over a list of the keys; \<open>rangeKeys\<close> is the list in increasing order, and
  the functions that take the list itself (\<open>DefaultSearchFuncOn\<close>, \<open>ListOn\<close>) are
  there to state what holds for every other order.
\<close>

type_synonym SearchFunc = "string fset \<Rightarrow> string \<Rightarrow> string list"
type_synonym HasFunc = "string fset \<Rightarrow> string \<Rightarrow> bool"
type_synonym DataFilterFunc = "string \<Rightarrow> string"
type_synonym DataLineFunc = "string \<Rightarrow> string \<times> bool"

definition rangeKeys :: "string fset \<Rightarrow> string list" where
  "rangeKeys recs = sorted_list_of_fset recs"

fun searchLoop :: "unicodeLib \<Rightarrow> string \<Rightarrow> string list \<Rightarrow> string list \<Rightarrow> string list" where
  "searchLoop U trm [] res = res"
| "searchLoop U trm (r # keys) res =
     searchLoop U trm keys (if Contains (ToLower U r) trm then res @ [r] else res)"

definition DefaultSearchFuncOn :: "unicodeLib \<Rightarrow> string list \<Rightarrow> string \<Rightarrow> string list" where
  "DefaultSearchFuncOn U keys trm = sortStrings (searchLoop U (ToLower U trm) keys [])"

definition DefaultSearchFunc :: "unicodeLib \<Rightarrow> SearchFunc" where
  "DefaultSearchFunc U recs trm = DefaultSearchFuncOn U (rangeKeys recs) trm"

definition DefaultDataLineProcessFunc :: DataLineFunc where
  "DefaultDataLineProcessFunc line =
     (line, \<not> (HasPrefix line ''#'' \<or> HasPrefix line ''//'' \<or> length line = 0))"

fun hasLoop :: "(string \<Rightarrow> bool) \<Rightarrow> string list \<Rightarrow> bool" where
  "hasLoop hit [] = False"
| "hasLoop hit (r # keys) = (if hit r then True else hasLoop hit keys)"

definition DefaultHasFunc :: "unicodeLib \<Rightarrow> HasFunc" where
  "DefaultHasFunc U recs trm =
     (let trm = ToLower U trm in hasLoop (\<lambda>r. EqualFold U r trm) (rangeKeys recs))"

definition DefaultHasPrefixFunc :: "unicodeLib \<Rightarrow> HasFunc" where
  "DefaultHasPrefixFunc U recs trm =
     (let trm = ToLower U trm in hasLoop (\<lambda>r. HasPrefix (ToLower U r) trm) (rangeKeys recs))"

definition DefaultHasSuffixFunc :: "unicodeLib \<Rightarrow> HasFunc" where
  "DefaultHasSuffixFunc U recs trm =
     (let trm = ToLower U trm in hasLoop (\<lambda>r. HasSuffix (ToLower U r) trm) (rangeKeys recs))"

text \<open>
  The struct \<^verbatim>\<open>RemoteList\<close>. A field of function type may be \<^verbatim>\<open>nil\<close>, which is \<open>None\<close>.
  \<^verbatim>\<open>maxAge\<close> is a \<^verbatim>\<open>time.Duration\<close>, a number of nanoseconds. The mutex is left out: the
  operations are modelled one at a time.
\<close>

record RemoteList =
  fnSearch :: "SearchFunc option"
  fnHas :: "HasFunc option"
  fnHasPrefix :: "HasFunc option"
  fnHasSuffix :: "HasFunc option"
  fnDataFiler :: "DataFilterFunc option"
  fnDataLine :: "DataLineFunc option"
  maxAge :: int
  fileLocal :: string
  fileRemote :: string
  records :: "string fset"

text \<open>\<^verbatim>\<open>Has\<close> and \<^verbatim>\<open>Search\<close> call the configured function; calling a \<^verbatim>\<open>nil\<close> function
  panics, which is the result \<open>None\<close>.\<close>

definition Has :: "RemoteList \<Rightarrow> string \<Rightarrow> bool option" where
  "Has rl val = (case fnHas rl of None \<Rightarrow> None | Some f \<Rightarrow> Some (f (records rl) val))"

definition Search :: "RemoteList \<Rightarrow> string \<Rightarrow> string list option" where
  "Search rl val = (case fnSearch rl of None \<Rightarrow> None | Some f \<Rightarrow> Some (f (records rl) val))"

definition Add :: "RemoteList \<Rightarrow> string \<Rightarrow> RemoteList" where
  "Add rl val = (let val = TrimSpace val in rl\<lparr>records := finsert val (records rl)\<rparr>)"

fun listLoop :: "string list \<Rightarrow> string list \<Rightarrow> string list" where
  "listLoop [] res = res"
| "listLoop (r # keys) res = listLoop keys (res @ [r])"

definition ListOn :: "string list \<Rightarrow> string list" where
  "ListOn keys = sortStrings (listLoop keys [])"

definition List :: "RemoteList \<Rightarrow> string list" where
  "List rl = ListOn (rangeKeys (records rl))"

section \<open>Files, clock and network\<close>

text \<open>
  What \<^verbatim>\<open>main.go\<close> asks of the operating system and of the network is outside the
  repository. A \<open>world\<close> holds the answers: the files by path (content, modification
  time in nanoseconds, \<^verbatim>\<open>os.FileMode\<close>), the clock, the reply of the remote side to a
  GET of each URL, the paths where writing or reading fails (with the error), the
  process's umask, and the list of the requests and writes made so far.
\<close>

record osFile =
  content :: string
  ModTime :: int
  Mode :: "32 word"

datatype body = Body string | BodyErr string

datatype reply = GetErr string | Response int body

datatype call = CallGet string | CallWriteFile string string "32 word"

record world =
  files :: "string \<rightharpoonup> osFile"
  clock :: int
  remote :: "string \<Rightarrow> reply"
  writeErr :: "string \<rightharpoonup> string"
  readErr :: "string \<rightharpoonup> string"
  umask :: "32 word"
  calls :: "call list"

text \<open>\<^verbatim>\<open>os.Stat\<close>: the file's information, or \<open>None\<close> for an error.\<close>

definition os_Stat :: "world \<Rightarrow> string \<Rightarrow> osFile option" where
  "os_Stat w name = files w name"

text \<open>\<^verbatim>\<open>FileMode.Perm\<close>: the permission bits, \<^verbatim>\<open>m & 0777\<close>.\<close>

definition Perm :: "32 word \<Rightarrow> 32 word" where
  "Perm m = m AND 0x1FF"

text \<open>\<^verbatim>\<open>time.Since(t)\<close> is \<^verbatim>\<open>time.Now().Sub(t)\<close>: the difference as a \<^verbatim>\<open>Duration\<close>, a 64-bit
  signed number of nanoseconds; a difference out of that range gives the largest or the
  smallest \<^verbatim>\<open>Duration\<close>.\<close>

definition maxDuration :: int where
  "maxDuration = 2 ^ 63 - 1"

definition minDuration :: int where
  "minDuration = - (2 ^ 63)"

definition time_Since :: "world \<Rightarrow> int \<Rightarrow> int" where
  "time_Since w t = max minDuration (min maxDuration (clock w - t))"

text \<open>\<^verbatim>\<open>http.Get\<close>: the remote side's reply; the request is recorded.\<close>

definition http_Get :: "world \<Rightarrow> string \<Rightarrow> reply \<times> world" where
  "http_Get w url = (remote w url, w\<lparr>calls := calls w @ [CallGet url]\<rparr>)"

text \<open>\<^verbatim>\<open>os.ReadFile\<close>: the content of the file, or an error when the file is missing or
  cannot be read.\<close>

definition os_ReadFile :: "world \<Rightarrow> string \<Rightarrow> string + string" where
  "os_ReadFile w name =
     (case files w name of
        None \<Rightarrow> Inl ''no such file or directory''
      | Some f \<Rightarrow> (case readErr w name of Some e \<Rightarrow> Inl e | None \<Rightarrow> Inr (content f)))"

text \<open>\<^verbatim>\<open>os.WriteFile(name, data, perm)\<close>: the file is created with the permissions
  \<^verbatim>\<open>perm\<close> (before umask) if it does not exist, otherwise its content is replaced and its
  mode is kept. The call is recorded with its arguments.\<close>

definition os_WriteFile :: "world \<Rightarrow> string \<Rightarrow> string \<Rightarrow> 32 word \<Rightarrow> string option \<times> world" where
  "os_WriteFile w name dat perm =
     (let w1 = w\<lparr>calls := calls w @ [CallWriteFile name dat perm]\<rparr> in
      case writeErr w name of
        Some e \<Rightarrow> (Some e, w1)
      | None \<Rightarrow>
          (None,
           w1\<lparr>files := (files w)(name \<mapsto>
                 (case files w name of
                    None \<Rightarrow> \<lparr>content = dat, ModTime = clock w, Mode = perm AND NOT (umask w)\<rparr>
                  | Some f \<Rightarrow> f\<lparr>content := dat, ModTime := clock w\<rparr>))\<rparr>))"

section \<open>Download, load and construction\<close>

text \<open>The five errors that \<^verbatim>\<open>download\<close> and \<^verbatim>\<open>init\<close> build with \<^verbatim>\<open>fmt.Errorf\<close>, each with
  the cause it wraps.\<close>

datatype error =
    DownloadFailed string
  | DownloadStatus int
  | DownloadRead string
  | DownloadWrite string
  | ReadLocal string

text \<open>
  In \<^verbatim>\<open>download\<close>, \<open>st\<close> is the result of \<^verbatim>\<open>os.Stat\<close>: \<open>None\<close> is \<^verbatim>\<open>fileExists == false\<close>, and
  \<open>Some fileInfo\<close> is \<^verbatim>\<open>fileExists == true\<close> with the information of the file. \<^verbatim>\<open>0644\<close> is
  hexadecimal 1A4. A \<^verbatim>\<open>nil\<close> filter writes the data as fetched.
\<close>

definition download :: "RemoteList \<Rightarrow> world \<Rightarrow> error option \<times> world" where
  "download rl w =
     (let st = os_Stat w (fileLocal rl);
          needsDownload =
            (case st of
               None \<Rightarrow> True
             | Some fileInfo \<Rightarrow> \<not> (time_Since w (ModTime fileInfo) < maxAge rl))
      in if needsDownload then
           (case http_Get w (fileRemote rl) of
              (GetErr e, w1) \<Rightarrow> (Some (DownloadFailed e), w1)
            | (Response statusCode b, w1) \<Rightarrow>
                if statusCode \<noteq> 200 then (Some (DownloadStatus statusCode), w1)
                else
                  (case b of
                     BodyErr e \<Rightarrow> (Some (DownloadRead e), w1)
                   | Body dat \<Rightarrow>
                       (let permissions =
                              (case st of
                                 None \<Rightarrow> 0x1A4
                               | Some fileInfo \<Rightarrow> Perm (Mode fileInfo));
                            out =
                              (case fnDataFiler rl of None \<Rightarrow> dat | Some f \<Rightarrow> f dat)
                        in case os_WriteFile w1 (fileLocal rl) out permissions of
                             (Some e, w2) \<Rightarrow> (Some (DownloadWrite e), w2)
                           | (None, w2) \<Rightarrow> (None, w2))))
         else (None, w))"

fun initLoop :: "RemoteList \<Rightarrow> string list \<Rightarrow> RemoteList" where
  "initLoop rl [] = rl"
| "initLoop rl (line # lines) =
     initLoop
       (case fnDataLine rl of
          None \<Rightarrow> rl
        | Some f \<Rightarrow> (case f line of (str, ok) \<Rightarrow> if ok then Add rl str else rl))
       lines"

definition init :: "RemoteList \<Rightarrow> world \<Rightarrow> error option \<times> RemoteList" where
  "init rl w =
     (case os_ReadFile w (fileLocal rl) of
        Inl e \<Rightarrow> (Some (ReadLocal e), rl)
      | Inr fileData \<Rightarrow> (None, initLoop rl (Split fileData)))"

text \<open>
  \<^verbatim>\<open>New\<close> returns a pair of a pointer and an error, each of which may be \<^verbatim>\<open>nil\<close>. The
  pointer that the last line returns is the one \<^verbatim>\<open>init\<close> has worked on, so the caller
  sees the instance as \<^verbatim>\<open>init\<close> left it. The first argument \<open>U\<close> is not one of the
  source: it is what the default functions that \<^verbatim>\<open>New\<close> installs get from the Unicode
  tables of the library.
\<close>

definition orDefault :: "'a option \<Rightarrow> 'a \<Rightarrow> 'a option" where
  "orDefault fn d = (if fn = None then Some d else fn)"

definition New ::
  "unicodeLib \<Rightarrow> string \<Rightarrow> string \<Rightarrow> int \<Rightarrow> HasFunc option \<Rightarrow> HasFunc option \<Rightarrow> HasFunc option \<Rightarrow>
   SearchFunc option \<Rightarrow> DataFilterFunc option \<Rightarrow> DataLineFunc option \<Rightarrow> world \<Rightarrow>
   (RemoteList option \<times> error option) \<times> world" where
  "New U fileLocal' fileRemote' maxAge' fnHas' fnHasPrefix' fnHasSuffix' fnSearch'
       fnDataFilter' fnDataLine' w =
     (let rl = \<lparr>fnSearch = orDefault fnSearch' (DefaultSearchFunc U),
                fnHas = orDefault fnHas' (DefaultHasFunc U),
                fnHasPrefix = orDefault fnHasPrefix' (DefaultHasPrefixFunc U),
                fnHasSuffix = orDefault fnHasSuffix' (DefaultHasSuffixFunc U),
                fnDataFiler = fnDataFilter',
                fnDataLine = orDefault fnDataLine' DefaultDataLineProcessFunc,
                maxAge = maxAge',
                fileLocal = fileLocal',
                fileRemote = fileRemote',
                records = {||}\<rparr>
      in case download rl w of
           (Some err, w1) \<Rightarrow> ((None, Some err), w1)
         | (None, w1) \<Rightarrow> (case init rl w1 of (err, rl1) \<Rightarrow> ((Some rl1, err), w1)))"

definition NewSimple ::
  "unicodeLib \<Rightarrow> string \<Rightarrow> string \<Rightarrow> int \<Rightarrow> world \<Rightarrow> (RemoteList option \<times> error option) \<times> world" where
  "NewSimple U fileLocal' fileRemote' maxAge' w =
     New U fileLocal' fileRemote' maxAge' None None None None None None w"

section \<open>Notions for stating the properties\<close>

text \<open>
  The requests and writes that one run of \<^verbatim>\<open>download\<close> adds to the record of calls.
\<close>

definition downloadCalls :: "RemoteList \<Rightarrow> world \<Rightarrow> call list" where
  "downloadCalls rl w = drop (length (calls w)) (calls (snd (download rl w)))"

text \<open>
  The value of the variable \<^verbatim>\<open>needsDownload\<close> when \<^verbatim>\<open>download\<close> reaches its second
  \<^verbatim>\<open>if\<close>: the file is missing, or its age \<^verbatim>\<open>time.Since(fileInfo.ModTime())\<close> is not below
  \<^verbatim>\<open>maxAge\<close>.
\<close>

definition needsDownload :: "RemoteList \<Rightarrow> world \<Rightarrow> bool" where
  "needsDownload rl w \<longleftrightarrow>
     (case files w (fileLocal rl) of
        None \<Rightarrow> True
      | Some f \<Rightarrow> maxAge rl \<le> time_Since w (ModTime f))"

text \<open>
  The transport failures: no reply at all, a status outside 200 to 299, or a body that
  cannot be read. \<open>fetchError\<close> holds for the three errors that \<^verbatim>\<open>download\<close> builds for a
  failed fetch, \<open>loadError\<close> for the error of \<^verbatim>\<open>init\<close>.
\<close>

definition transportFailure :: "reply \<Rightarrow> bool" where
  "transportFailure r =
     (case r of
        GetErr e \<Rightarrow> True
      | Response statusCode b \<Rightarrow>
          \<not> (200 \<le> statusCode \<and> statusCode \<le> 299) \<or> (case b of BodyErr e \<Rightarrow> True | Body dat \<Rightarrow> False))"

fun fetchError :: "error \<Rightarrow> bool" where
  "fetchError (DownloadFailed e) = True"
| "fetchError (DownloadStatus statusCode) = True"
| "fetchError (DownloadRead e) = True"
| "fetchError (DownloadWrite e) = False"
| "fetchError (ReadLocal e) = False"

fun loadError :: "error \<Rightarrow> bool" where
  "loadError (ReadLocal e) = True"
| "loadError err = False"

text \<open>
  A string that consists of white space only: a sequence of white space runes in UTF-8.
\<close>

inductive whiteSpaceOnly :: "string \<Rightarrow> bool" where
  empty: "whiteSpaceOnly []"
| rune: "sp \<in> set spaceRunes \<Longrightarrow> whiteSpaceOnly s \<Longrightarrow> whiteSpaceOnly (sp @ s)"

text \<open>
  A search function a caller may pass to \<^verbatim>\<open>New\<close>: the matches of the default search, in
  decreasing order.
\<close>

definition reverseSearch :: "unicodeLib \<Rightarrow> SearchFunc" where
  "reverseSearch U recs trm = rev (DefaultSearchFunc U recs trm)"

subsection \<open>Concrete instances and worlds\<close>

text \<open>
  The instances below are evaluated at ASCII strings only, for which the library does
  not consult the Unicode tables (\<open>ToLower_ASCII\<close>, \<open>EqualFold_ASCII\<close>); \<open>noTables\<close> stands
  in for them there.
  \<open>rlDefault\<close> is the instance that \<^verbatim>\<open>NewSimple("list.txt", "http://example.com/list.txt", 60)\<close>
  builds before it downloads. In \<open>wFresh\<close> the local file exists (mode \<^verbatim>\<open>setgid | 0640\<close>) and
  was modified 30 nanoseconds ago; in \<open>wUnreadable\<close> the same file cannot be read; in
  \<open>wWhite\<close> its second line is a space and a tab.
\<close>

definition noTables :: unicodeLib where
  "noTables = \<lparr>mapToLower = (\<lambda>s. s), foldUnicode = (\<lambda>s t. s = t)\<rparr>"

definition rlDefault :: RemoteList where
  "rlDefault =
     \<lparr>fnSearch = Some (DefaultSearchFunc noTables), fnHas = Some (DefaultHasFunc noTables),
      fnHasPrefix = Some (DefaultHasPrefixFunc noTables), fnHasSuffix = Some (DefaultHasSuffixFunc noTables),
      fnDataFiler = None, fnDataLine = Some DefaultDataLineProcessFunc,
      maxAge = 60, fileLocal = ''list.txt'', fileRemote = ''http://example.com/list.txt'',
      records = {||}\<rparr>"

definition wFresh :: world where
  "wFresh =
     \<lparr>files = [''list.txt'' \<mapsto>
        \<lparr>content = ''# comment\<newline>\<newline>1.2.3.4\<newline>// note\<newline>5.6.7.8'', ModTime = 70, Mode = 0x4001A0\<rparr>],
      clock = 100, remote = (\<lambda>url. Response 200 (Body ''9.9.9.9'')),
      writeErr = Map.empty, readErr = Map.empty, umask = 0x12, calls = []\<rparr>"

definition wUnreadable :: world where
  "wUnreadable = wFresh\<lparr>readErr := [''list.txt'' \<mapsto> ''permission denied'']\<rparr>"

definition wWhite :: world where
  "wWhite = wFresh\<lparr>files := [''list.txt'' \<mapsto>
     \<lparr>content = ''1.2.3.4'' @ [CHR 0x0A, CHR 0x20, CHR 0x09, CHR 0x0A] @ ''5.6.7.8'',
      ModTime = 70, Mode = 0x1A4\<rparr>]\<rparr>"

section \<open>Facts about the library functions and the loops\<close>

lemma spaceRunes_nonempty: "sp \<in> set spaceRunes \<Longrightarrow> sp \<noteq> []"
  by (auto simp: spaceRunes_def asciiSpace_def)

lemma leadingSpace_le: "leadingSpace s \<le> length s"
  by (auto simp: leadingSpace_def HasPrefix_def split: option.splits
      dest: find_Some_iff [THEN iffD1])

lemma trailingSpace_le: "trailingSpace s \<le> length s"
  by (auto simp: trailingSpace_def HasSuffix_def split: option.splits
      dest: find_Some_iff [THEN iffD1])

lemma HasPrefix_iff: "HasPrefix s pre \<longleftrightarrow> (\<exists>t. s = pre @ t)"
  unfolding HasPrefix_def
  by (metis append_eq_conv_conj append_take_drop_id length_append le_add1)

lemma Contains_iff: "Contains s sub \<longleftrightarrow> (\<exists>a b. s = a @ sub @ b)"
proof (induction s)
  case Nil
  then show ?case by auto
next
  case (Cons c s)
  have pre: "HasPrefix (c # s) sub \<longleftrightarrow> (\<exists>b. c # s = sub @ b)"
    unfolding HasPrefix_def
    by (metis append_eq_conv_conj append_take_drop_id length_append le_add1)
  show ?case
  proof
    assume "Contains (c # s) sub"
    then consider "HasPrefix (c # s) sub" | "Contains s sub" by auto
    then show "\<exists>a b. c # s = a @ sub @ b"
    proof cases
      case 1
      with pre obtain b where "c # s = sub @ b" by blast
      then have "c # s = [] @ sub @ b" by simp
      then show ?thesis by blast
    next
      case 2
      with Cons.IH obtain a b where "s = a @ sub @ b" by blast
      then have "c # s = (c # a) @ sub @ b" by simp
      then show ?thesis by blast
    qed
  next
    assume "\<exists>a b. c # s = a @ sub @ b"
    then obtain a b where ab: "c # s = a @ sub @ b" by blast
    show "Contains (c # s) sub"
    proof (cases a)
      case Nil
      with ab have "c # s = sub @ b" by simp
      with pre have "HasPrefix (c # s) sub" by blast
      then show ?thesis by simp
    next
      case (Cons x a')
      with ab have "s = a' @ sub @ b" by simp
      with Cons.IH show ?thesis by auto
    qed
  qed
qed

lemma ToLower_ASCII: "isASCII s \<Longrightarrow> ToLower U s = map lowerByte s"
  by (simp add: ToLower_def)

lemma lowerByte_eq_iff:
  assumes "(of_char a :: nat) < 128" and "(of_char b :: nat) < 128"
  shows "lowerByte a = lowerByte b \<longleftrightarrow>
    a = b \<or>
    (65 \<le> min (of_char a :: nat) (of_char b) \<and> min (of_char a :: nat) (of_char b) \<le> 90 \<and>
     max (of_char a :: nat) (of_char b) = min (of_char a :: nat) (of_char b) + 32)"
proof -
  have inj: "a = b \<longleftrightarrow> (of_char a :: nat) = of_char b"
    by (metis char_of_char)
  have up: "lowerByte c = char_of ((of_char c :: nat) + 32)"
    if "65 \<le> (of_char c :: nat)" "(of_char c :: nat) \<le> 90" for c
    using that by (simp add: lowerByte_def Let_def)
  have keep: "lowerByte c = c" if "\<not> (65 \<le> (of_char c :: nat) \<and> (of_char c :: nat) \<le> 90)" for c
    using that by (auto simp: lowerByte_def Let_def)
  have val: "(of_char (lowerByte c) :: nat) =
      (if 65 \<le> (of_char c :: nat) \<and> (of_char c :: nat) \<le> 90 then of_char c + 32 else of_char c)" for c
    by (simp add: lowerByte_def Let_def)
  have "lowerByte a = lowerByte b \<longleftrightarrow> (of_char (lowerByte a) :: nat) = of_char (lowerByte b)"
    by (metis char_of_char)
  with assms show ?thesis
    unfolding inj val by (auto simp: min_def max_def)
qed

lemma EqualFold_ASCII:
  "isASCII s \<Longrightarrow> isASCII t \<Longrightarrow> EqualFold U s t \<longleftrightarrow> map lowerByte s = map lowerByte t"
proof (induction U s t rule: EqualFold.induct)
  case (1 U sr s tr t)
  then have a: "(of_char sr :: nat) < 128" "(of_char tr :: nat) < 128" "isASCII s" "isASCII t"
    by (simp_all add: isASCII_def)
  show ?case
  proof (cases "tr = sr")
    case True
    with a "1.IH"(1) show ?thesis by simp
  next
    case False
    with a "1.IH"(2) lowerByte_eq_iff [OF a(1) a(2)] show ?thesis
      by (auto simp: Let_def)
  qed
next
  case (2 U t)
  then show ?case by auto
next
  case (3 U sr s)
  then show ?case by simp
qed

lemma lowerByte_idem: "lowerByte (lowerByte c) = lowerByte c"
  by (simp add: lowerByte_def Let_def)

lemma isASCII_lower: "isASCII s \<Longrightarrow> isASCII (map lowerByte s)"
  by (induction s) (auto simp: isASCII_def lowerByte_def Let_def)

lemma EqualFold_ToLower_ASCII:
  assumes "isASCII r" and "isASCII trm"
  shows "EqualFold U r (ToLower U trm) \<longleftrightarrow> map lowerByte r = map lowerByte trm"
proof -
  have "map lowerByte (map lowerByte trm) = map lowerByte trm"
    by (simp add: lowerByte_idem)
  with assms show ?thesis
    by (simp only: ToLower_ASCII EqualFold_ASCII isASCII_lower)
qed

lemma find_spaceRune_all:
  "list_all (\<lambda>sp. find (HasPrefix (sp @ s)) spaceRunes = Some sp) spaceRunes"
  by (simp add: spaceRunes_def asciiSpace_def HasPrefix_def)

lemma find_spaceRune:
  "sp \<in> set spaceRunes \<Longrightarrow> find (HasPrefix (sp @ s)) spaceRunes = Some sp"
  using find_spaceRune_all [of s] by (simp add: list_all_iff)

lemma leadingSpace_rune: "sp \<in> set spaceRunes \<Longrightarrow> leadingSpace (sp @ s) = length sp"
  by (simp add: leadingSpace_def find_spaceRune)

lemma TrimLeft_rune: "sp \<in> set spaceRunes \<Longrightarrow> TrimLeft (sp @ s) = TrimLeft s"
  using spaceRunes_nonempty [of sp]
  by (subst TrimLeft.simps) (simp add: leadingSpace_rune Let_def)

lemma TrimLeft_Nil: "TrimLeft [] = []"
  using leadingSpace_le [of "[]"] by (subst TrimLeft.simps) simp

lemma TrimRight_Nil: "TrimRight [] = []"
  using trailingSpace_le [of "[]"] by (subst TrimRight.simps) simp

lemma TrimLeft_whiteSpaceOnly: "whiteSpaceOnly s \<Longrightarrow> TrimLeft s = []"
  by (induction rule: whiteSpaceOnly.induct) (simp_all add: TrimLeft_Nil TrimLeft_rune)

lemma TrimSpace_whiteSpaceOnly: "whiteSpaceOnly s \<Longrightarrow> TrimSpace s = []"
  by (simp add: TrimSpace_def TrimLeft_whiteSpaceOnly TrimRight_Nil)

lemma spaceRune_first:
  "sp \<in> set spaceRunes \<Longrightarrow> \<not> HasPrefix (sp @ s) ''#'' \<and> \<not> HasPrefix (sp @ s) ''//''"
  by (auto simp: spaceRunes_def asciiSpace_def HasPrefix_def)

lemma whiteSpaceOnly_included:
  "whiteSpaceOnly s \<Longrightarrow> s \<noteq> [] \<Longrightarrow> DefaultDataLineProcessFunc s = (s, True)"
proof (induction rule: whiteSpaceOnly.induct)
  case empty
  then show ?case by simp
next
  case (rune sp s)
  from rune.hyps(1) show ?case
    using spaceRune_first [of sp s] spaceRunes_nonempty [of sp]
    by (simp add: DefaultDataLineProcessFunc_def)
qed

lemma sorted_sortStrings: "sorted (sortStrings xs)"
  by (simp add: sortStrings_def)

lemma set_sortStrings: "set (sortStrings xs) = set xs"
  by (simp add: sortStrings_def)

lemma distinct_sortStrings: "distinct (sortStrings xs) = distinct xs"
  by (simp add: sortStrings_def)

lemma sortStrings_unique:
  assumes "distinct xs" and "distinct ys" and "set xs = set ys"
  shows "sortStrings xs = sortStrings ys"
  using assms
  by (intro sorted_distinct_set_unique) (simp_all add: sortStrings_def)

lemma distinct_singleton: "distinct xs \<Longrightarrow> set xs = {x} \<Longrightarrow> xs = [x]"
  by (cases xs) (auto simp: subset_singleton_iff dest: arg_cong [where f = "\<lambda>A. A - {x}"])

lemma count_list_distinct: "distinct xs \<Longrightarrow> x \<in> set xs \<Longrightarrow> count_list xs x = 1"
  by (induction xs) auto

lemma set_rangeKeys: "set (rangeKeys recs) = fset recs"
  by (simp add: rangeKeys_def)

lemma distinct_rangeKeys: "distinct (rangeKeys recs)"
  by (simp add: rangeKeys_def sorted_list_of_fset.rep_eq)

lemma sorted_rangeKeys: "sorted (rangeKeys recs)"
  by (simp add: rangeKeys_def sorted_list_of_fset.rep_eq)

lemma listLoop_append: "listLoop keys res = res @ keys"
  by (induction keys arbitrary: res) simp_all

lemma searchLoop_filter:
  "searchLoop U trm keys res = res @ filter (\<lambda>r. Contains (ToLower U r) trm) keys"
  by (induction keys arbitrary: res) simp_all

lemma hasLoop_ex: "hasLoop hit keys \<longleftrightarrow> (\<exists>r \<in> set keys. hit r)"
  by (induction keys) simp_all

lemma ListOn_any_order:
  assumes "distinct keys" and "set keys = fset recs"
  shows "ListOn keys = ListOn (rangeKeys recs)"
  unfolding ListOn_def listLoop_append
  using assms by (intro sortStrings_unique) (simp_all add: set_rangeKeys distinct_rangeKeys)

lemma DefaultSearchFuncOn_any_order:
  assumes "distinct keys" and "set keys = fset recs"
  shows "DefaultSearchFuncOn U keys trm = DefaultSearchFunc U recs trm"
  unfolding DefaultSearchFunc_def DefaultSearchFuncOn_def searchLoop_filter
  using assms by (intro sortStrings_unique) (simp_all add: set_rangeKeys distinct_rangeKeys)

lemma DefaultHasFunc_iff:
  "DefaultHasFunc U recs trm \<longleftrightarrow> (\<exists>r. r |\<in>| recs \<and> EqualFold U r (ToLower U trm))"
  by (auto simp: DefaultHasFunc_def hasLoop_ex set_rangeKeys)

lemma set_DefaultSearchFunc:
  "set (DefaultSearchFunc U recs trm) = {r. r |\<in>| recs \<and> Contains (ToLower U r) (ToLower U trm)}"
  by (auto simp: DefaultSearchFunc_def DefaultSearchFuncOn_def searchLoop_filter
      set_sortStrings set_rangeKeys)

lemma distinct_DefaultSearchFunc: "distinct (DefaultSearchFunc U recs trm)"
  by (simp add: DefaultSearchFunc_def DefaultSearchFuncOn_def searchLoop_filter
      distinct_sortStrings distinct_rangeKeys)

lemma records_Add: "records (Add rl val) = finsert (TrimSpace val) (records rl)"
  by (simp add: Add_def)

lemma fnDataLine_Add: "fnDataLine (Add rl val) = fnDataLine rl"
  by (simp add: Add_def)

lemma Add_twice: "Add (Add rl x) x = Add rl x"
  by (simp add: Add_def)

lemma set_List: "set (List rl) = fset (records rl)"
  by (simp add: List_def ListOn_def listLoop_append set_sortStrings set_rangeKeys)

lemma distinct_List: "distinct (List rl)"
  by (simp add: List_def ListOn_def listLoop_append distinct_sortStrings distinct_rangeKeys)

lemma sorted_List: "sorted (List rl)"
  by (simp add: List_def ListOn_def sorted_sortStrings)

lemma initLoop_None: "fnDataLine rl = None \<Longrightarrow> initLoop rl lines = rl"
  by (induction lines) simp_all

lemma initLoop_records:
  "fnDataLine rl = Some f \<Longrightarrow>
   initLoop rl lines =
     rl\<lparr>records := records rl |\<union>|
       fset_of_list (map (\<lambda>line. TrimSpace (fst (f line))) (filter (\<lambda>line. snd (f line)) lines))\<rparr>"
proof (induction lines arbitrary: rl)
  case Nil
  then show ?case by simp
next
  case (Cons line lines)
  show ?case
  proof (cases "snd (f line)")
    case True
    with Cons.prems have "initLoop rl (line # lines) = initLoop (Add rl (fst (f line))) lines"
      by (simp add: case_prod_beta)
    also have "\<dots> = (Add rl (fst (f line)))\<lparr>records := records (Add rl (fst (f line))) |\<union>|
       fset_of_list (map (\<lambda>line. TrimSpace (fst (f line))) (filter (\<lambda>line. snd (f line)) lines))\<rparr>"
      using Cons.prems by (intro Cons.IH) (simp add: fnDataLine_Add)
    finally show ?thesis using True by (simp add: Add_def)
  next
    case False
    with Cons.prems have "initLoop rl (line # lines) = initLoop rl lines"
      by (simp add: case_prod_beta)
    with Cons.IH [OF Cons.prems] False show ?thesis by simp
  qed
qed

lemma init_ok:
  "fnDataLine rl = Some f \<Longrightarrow> os_ReadFile w (fileLocal rl) = Inr fileData \<Longrightarrow>
   init rl w =
     (None, rl\<lparr>records := records rl |\<union>|
       fset_of_list (map (\<lambda>line. TrimSpace (fst (f line)))
         (filter (\<lambda>line. snd (f line)) (Split fileData)))\<rparr>)"
  by (simp add: init_def initLoop_records)

lemma init_error_kind: "init rl w = (Some err, rl1) \<Longrightarrow> loadError err"
  by (auto simp: init_def split: sum.splits)

lemma time_Since_exact:
  "minDuration \<le> clock w - t \<Longrightarrow> clock w - t \<le> maxDuration \<Longrightarrow> time_Since w t = clock w - t"
  by (simp add: time_Since_def)

lemma download_fresh:
  "\<not> needsDownload rl w \<Longrightarrow> download rl w = (None, w)"
  by (auto simp: download_def needsDownload_def os_Stat_def Let_def split: option.splits)

lemma download_needsDownload:
  "needsDownload rl w \<Longrightarrow>
   download rl w =
     (let w1 = w\<lparr>calls := calls w @ [CallGet (fileRemote rl)]\<rparr> in
      case remote w (fileRemote rl) of
        GetErr e \<Rightarrow> (Some (DownloadFailed e), w1)
      | Response statusCode b \<Rightarrow>
          if statusCode \<noteq> 200 then (Some (DownloadStatus statusCode), w1)
          else
            (case b of
               BodyErr e \<Rightarrow> (Some (DownloadRead e), w1)
             | Body dat \<Rightarrow>
                 (case os_WriteFile w1 (fileLocal rl)
                         (case fnDataFiler rl of None \<Rightarrow> dat | Some f \<Rightarrow> f dat)
                         (case files w (fileLocal rl) of
                            None \<Rightarrow> 0x1A4
                          | Some fileInfo \<Rightarrow> Perm (Mode fileInfo)) of
                    (Some e, w2) \<Rightarrow> (Some (DownloadWrite e), w2)
                  | (None, w2) \<Rightarrow> (None, w2))))"
  by (simp add: download_def needsDownload_def os_Stat_def http_Get_def Let_def
      split: option.splits reply.splits body.splits prod.splits)

lemma downloadCalls_fresh: "\<not> needsDownload rl w \<Longrightarrow> downloadCalls rl w = []"
  by (simp add: downloadCalls_def download_fresh)

lemma downloadCalls_needsDownload:
  "needsDownload rl w \<Longrightarrow>
   downloadCalls rl w =
     CallGet (fileRemote rl) #
     (case remote w (fileRemote rl) of
        Response statusCode (Body dat) \<Rightarrow>
          if statusCode = 200 then
            [CallWriteFile (fileLocal rl)
               (case fnDataFiler rl of None \<Rightarrow> dat | Some f \<Rightarrow> f dat)
               (case files w (fileLocal rl) of
                  None \<Rightarrow> 0x1A4
                | Some fileInfo \<Rightarrow> Perm (Mode fileInfo))]
          else []
      | _ \<Rightarrow> [])"
  by (simp add: downloadCalls_def download_needsDownload http_Get_def os_WriteFile_def Let_def
      split: reply.splits body.splits option.splits)

lemma download_error_kind: "download rl w = (Some err, w1) \<Longrightarrow> \<not> loadError err"
  by (cases "needsDownload rl w")
    (auto simp: download_fresh download_needsDownload os_WriteFile_def Let_def
      split: reply.splits body.splits option.splits if_splits)

lemma Split_example:
  "Split ''# comment\<newline>\<newline>1.2.3.4\<newline>// note\<newline>5.6.7.8'' =
     [''# comment'', [], ''1.2.3.4'', ''// note'', ''5.6.7.8'']"
  by code_simp

lemma TrimSpace_example: "TrimSpace ''1.2.3.4'' = ''1.2.3.4''" "TrimSpace ''5.6.7.8'' = ''5.6.7.8''"
  by code_simp+

lemma ToLower_examples:
  "ToLower U ''example.com'' = ''example.com''" "ToLower U ''Example.com'' = ''example.com''"
  "ToLower U ''EXAM'' = ''exam''" "Contains ''example.com'' ''exam''"
  "EqualFold U ''Example.com'' ''example.com''"
  by code_simp+

lemma whiteSpaceOnly_ascii: "set s \<subseteq> set asciiSpace \<Longrightarrow> whiteSpaceOnly s"
proof (induction s)
  case Nil
  show ?case by (rule whiteSpaceOnly.empty)
next
  case (Cons c s)
  then have "[c] \<in> set spaceRunes" and "whiteSpaceOnly s"
    by (auto simp: spaceRunes_def)
  then have "whiteSpaceOnly ([c] @ s)"
    by (rule whiteSpaceOnly.rune)
  then show ?case by simp
qed

lemma orDefault_Some: "\<exists>y. orDefault fn d = Some y"
  by (cases fn) (simp_all add: orDefault_def)

lemma init_keeps_functions:
  "init rl w = (err, rl1) \<Longrightarrow>
   fnHas rl1 = fnHas rl \<and> fnSearch rl1 = fnSearch rl \<and> fnHasPrefix rl1 = fnHasPrefix rl \<and>
   fnHasSuffix rl1 = fnHasSuffix rl \<and> fnDataLine rl1 = fnDataLine rl \<and>
   fnDataFiler rl1 = fnDataFiler rl"
  by (cases "fnDataLine rl")
    (auto simp: init_def initLoop_None initLoop_records split: sum.splits)

lemma New_defaults:
  assumes "fst (fst (New U fl fr ma h hp hs s df dl w)) = Some rl"
  shows "fnHas rl \<noteq> None \<and> fnSearch rl \<noteq> None \<and> fnHasPrefix rl \<noteq> None \<and>
    fnHasSuffix rl \<noteq> None \<and> fnDataLine rl \<noteq> None"
  using assms
  by (auto simp: New_def Let_def orDefault_Some split: prod.splits option.splits
      dest!: init_keeps_functions)

section \<open>The claims\<close>

subsection \<open>C1: what \<^verbatim>\<open>New\<close> returns when construction fails\<close>

text \<open>
  Claim C1 says that \<^verbatim>\<open>New\<close> returns an error and no instance when construction fails at
  the fetch step or at the load step. The code keeps that for the fetch step only. For
  every configuration and every world: when \<^verbatim>\<open>New\<close> returns an error of \<^verbatim>\<open>download\<close> (a
  failed fetch or a failed write), the instance it returns is \<^verbatim>\<open>nil\<close>; when it returns the
  error of \<^verbatim>\<open>init\<close> (the local file could not be read), it returns the instance as well,
  since its last line is \<^verbatim>\<open>return rl, rl.init()\<close>.
\<close>

theorem C1_New_result_on_failure:
  "snd (fst (New U fl fr ma h hp hs s df dl w)) = Some err \<longrightarrow>
     (\<not> loadError err \<longrightarrow> fst (fst (New U fl fr ma h hp hs s df dl w)) = None) \<and>
     (loadError err \<longrightarrow> fst (fst (New U fl fr ma h hp hs s df dl w)) \<noteq> None)"
  by (auto simp: New_def Let_def split: prod.splits option.splits
      dest: init_error_kind download_error_kind)

text \<open>
  The failing input of C1: the local file is fresh, so nothing is downloaded, and it
  cannot be read. \<^verbatim>\<open>New\<close> returns the load error together with an instance whose record
  set is empty.
\<close>

theorem C1_New_result_on_failure_witness:
  "New noTables ''list.txt'' ''http://example.com/list.txt'' 60 None None None None None None wUnreadable =
     ((Some rlDefault, Some (ReadLocal ''permission denied'')), wUnreadable) \<and>
   loadError (ReadLocal ''permission denied'') \<and>
   fst (fst (New noTables ''list.txt'' ''http://example.com/list.txt'' 60 None None None None None None
     wUnreadable)) \<noteq> None \<and>
   records rlDefault = {||}"
proof -
  have n: "New noTables ''list.txt'' ''http://example.com/list.txt'' 60 None None None None None None
      wUnreadable = ((Some rlDefault, Some (ReadLocal ''permission denied'')), wUnreadable)"
    by (simp add: New_def download_def init_def wUnreadable_def wFresh_def rlDefault_def
        orDefault_def os_Stat_def time_Since_def os_ReadFile_def Let_def minDuration_def
        maxDuration_def)
  then have e: "snd (fst (New noTables ''list.txt'' ''http://example.com/list.txt'' 60 None None None None
      None None wUnreadable)) = Some (ReadLocal ''permission denied'')"
    by simp
  have l: "loadError (ReadLocal ''permission denied'')"
    by simp
  from C1_New_result_on_failure
    [where fl = "''list.txt''" and fr = "''http://example.com/list.txt''" and ma = 60
      and h = None and hp = None and hs = None and s = None and df = None and dl = None
      and w = wUnreadable and err = "ReadLocal ''permission denied''"] e l
  have "fst (fst (New noTables ''list.txt'' ''http://example.com/list.txt'' 60 None None None None None
      None wUnreadable)) \<noteq> None"
    by blast
  with n l show ?thesis by (simp add: rlDefault_def)
qed

subsection \<open>C2: what enters the record set\<close>

text \<open>
  Claim C2, as amended. \<^verbatim>\<open>Add\<close> does not consult the per-line processor: it inserts its
  argument, trimmed, whatever the processor would answer for it. The load inserts
  exactly the trimmed outputs of the processor on the lines of the file that the
  processor includes: after \<^verbatim>\<open>init\<close>, a string is a record iff it was one before or it is
  \<^verbatim>\<open>TrimSpace(parsed)\<close> for a line with \<^verbatim>\<open>fnDataLine(line) = (parsed, true)\<close>; a line that
  the processor excludes inserts nothing. Without a processor, or when the file cannot be
  read, the load inserts nothing at all.
\<close>

theorem C2_insertions:
  "records (Add rl val) = finsert (TrimSpace val) (records rl) \<and>
   (fnDataLine rl = Some f \<and> os_ReadFile w (fileLocal rl) = Inr fileData \<longrightarrow>
      (r |\<in>| records (snd (init rl w)) \<longleftrightarrow>
         r |\<in>| records rl \<or>
         (\<exists>line \<in> set (Split fileData). snd (f line) \<and> r = TrimSpace (fst (f line))))) \<and>
   (fnDataLine rl = None \<or> (\<exists>e. os_ReadFile w (fileLocal rl) = Inl e) \<longrightarrow>
      records (snd (init rl w)) = records rl)"
proof -
  have a: "r |\<in>| records (snd (init rl w)) \<longleftrightarrow>
      r |\<in>| records rl \<or>
      (\<exists>line \<in> set (Split fileData). snd (f line) \<and> r = TrimSpace (fst (f line)))"
    if "fnDataLine rl = Some f \<and> os_ReadFile w (fileLocal rl) = Inr fileData"
    using that by (auto simp: init_ok fset_of_list.rep_eq)
  have b: "records (snd (init rl w)) = records rl"
    if "fnDataLine rl = None \<or> (\<exists>e. os_ReadFile w (fileLocal rl) = Inl e)"
    using that by (auto simp: init_def initLoop_None split: sum.splits)
  from a b show ?thesis
    by (simp add: records_Add)
qed

text \<open>
  C2 at the file of \<open>wFresh\<close>: \<^verbatim>\<open>Add(" 9.9.9.9 ")\<close> on the empty set gives the set of
  \<^verbatim>\<open>"9.9.9.9"\<close>; after the load \<^verbatim>\<open>"1.2.3.4"\<close> is a record and \<^verbatim>\<open>"# comment"\<close> is none.
\<close>

theorem C2_insertions_witness:
  "records (Add rlDefault '' 9.9.9.9 '') = {|''9.9.9.9''|} \<and>
   ''1.2.3.4'' |\<in>| records (snd (init rlDefault wFresh)) \<and>
   ''# comment'' |\<notin>| records (snd (init rlDefault wFresh))"
proof -
  let ?c = "''# comment\<newline>\<newline>1.2.3.4\<newline>// note\<newline>5.6.7.8''"
  have h: "fnDataLine rlDefault = Some DefaultDataLineProcessFunc \<and>
      os_ReadFile wFresh (fileLocal rlDefault) = Inr ?c"
    by (simp add: rlDefault_def wFresh_def os_ReadFile_def)
  have t: "TrimSpace '' 9.9.9.9 '' = ''9.9.9.9''" by code_simp
  have e: "records rlDefault = {||}" by (simp add: rlDefault_def)
  have 1: "records (Add rlDefault '' 9.9.9.9 '') = {|''9.9.9.9''|}"
    using C2_insertions [of rlDefault "'' 9.9.9.9 ''"] t e by simp
  have 2: "''1.2.3.4'' |\<in>| records (snd (init rlDefault wFresh))"
    using C2_insertions [of rlDefault _ DefaultDataLineProcessFunc wFresh ?c "''1.2.3.4''"] h
    by (simp add: Split_example DefaultDataLineProcessFunc_def HasPrefix_def TrimSpace_example)
  have 3: "''# comment'' |\<notin>| records (snd (init rlDefault wFresh))"
    using C2_insertions [of rlDefault _ DefaultDataLineProcessFunc wFresh ?c "''# comment''"] h e
    by (simp add: Split_example DefaultDataLineProcessFunc_def HasPrefix_def TrimSpace_example)
  from 1 2 3 show ?thesis by simp
qed

text \<open>
  Claim C2 as it is written fails for \<^verbatim>\<open>Add\<close>: with the default processor configured and
  the record set empty, the processor excludes the candidate \<^verbatim>\<open>"#x"\<close>, and \<^verbatim>\<open>Add("#x")\<close>
  makes it a record.
\<close>

theorem C2_Add_unfiltered_counterexample:
  "fnDataLine rlDefault = Some DefaultDataLineProcessFunc \<and>
   records rlDefault = {||} \<and>
   \<not> snd (DefaultDataLineProcessFunc ''#x'') \<and>
   ''#x'' |\<in>| records (Add rlDefault ''#x'')"
proof -
  have "fnDataLine rlDefault = Some DefaultDataLineProcessFunc" and "records rlDefault = {||}"
    by (simp_all add: rlDefault_def)
  moreover have "\<not> snd (DefaultDataLineProcessFunc ''#x'')"
    by code_simp
  moreover have "''#x'' |\<in>| records (Add rlDefault ''#x'')"
    by code_simp
  ultimately show ?thesis by simp
qed

subsection \<open>C3: the staleness gate\<close>

text \<open>
  Claim C3. For every instance and every world, \<^verbatim>\<open>download\<close> requests the remote file
  iff the local file is absent or its age is at least \<^verbatim>\<open>maxAge\<close>; when the file exists and
  its age is below \<^verbatim>\<open>maxAge\<close>, \<^verbatim>\<open>download\<close> returns no error and leaves the world as it
  was: no request, no write. The age is \<^verbatim>\<open>time.Since(fileInfo.ModTime())\<close>, the clock
  minus the modification time as a \<^verbatim>\<open>Duration\<close>; whenever that difference fits in 64
  bits the age is the difference itself, as the third part says.
\<close>

theorem C3_staleness_gate:
  "(CallGet (fileRemote rl) \<in> set (downloadCalls rl w) \<longleftrightarrow>
      files w (fileLocal rl) = None \<or>
      (\<exists>f. files w (fileLocal rl) = Some f \<and> maxAge rl \<le> time_Since w (ModTime f))) \<and>
   (\<forall>f. files w (fileLocal rl) = Some f \<and> time_Since w (ModTime f) < maxAge rl \<longrightarrow>
      download rl w = (None, w) \<and> downloadCalls rl w = []) \<and>
   (\<forall>f. files w (fileLocal rl) = Some f \<and>
        minDuration \<le> clock w - ModTime f \<and> clock w - ModTime f \<le> maxDuration \<longrightarrow>
      time_Since w (ModTime f) = clock w - ModTime f \<and>
      (CallGet (fileRemote rl) \<in> set (downloadCalls rl w) \<longleftrightarrow>
         maxAge rl \<le> clock w - ModTime f))"
proof -
  have gate: "CallGet (fileRemote rl) \<in> set (downloadCalls rl w) \<longleftrightarrow> needsDownload rl w"
    by (cases "needsDownload rl w") (simp_all add: downloadCalls_needsDownload downloadCalls_fresh)
  have a: "CallGet (fileRemote rl) \<in> set (downloadCalls rl w) \<longleftrightarrow>
      files w (fileLocal rl) = None \<or>
      (\<exists>f. files w (fileLocal rl) = Some f \<and> maxAge rl \<le> time_Since w (ModTime f))"
    unfolding gate by (auto simp: needsDownload_def split: option.splits)
  have b: "download rl w = (None, w) \<and> downloadCalls rl w = []"
    if "files w (fileLocal rl) = Some f \<and> time_Since w (ModTime f) < maxAge rl" for f
  proof -
    from that have "\<not> needsDownload rl w"
      by (simp add: needsDownload_def)
    then show ?thesis
      by (simp add: download_fresh downloadCalls_fresh)
  qed
  have c: "time_Since w (ModTime f) = clock w - ModTime f \<and>
      (CallGet (fileRemote rl) \<in> set (downloadCalls rl w) \<longleftrightarrow>
         maxAge rl \<le> clock w - ModTime f)"
    if "files w (fileLocal rl) = Some f \<and>
        minDuration \<le> clock w - ModTime f \<and> clock w - ModTime f \<le> maxDuration" for f
  proof -
    from that have "time_Since w (ModTime f) = clock w - ModTime f"
      by (simp add: time_Since_exact)
    with that show ?thesis
      unfolding gate by (simp add: needsDownload_def)
  qed
  from a b c show ?thesis by blast
qed

text \<open>
  C3 at \<open>wFresh\<close> with \<^verbatim>\<open>maxAge\<close> 60: at age 30 nothing is fetched and the world is
  unchanged; at age 60 (the clock at 130) and with the file absent the remote file is
  requested.
\<close>

theorem C3_staleness_gate_witness:
  "download rlDefault wFresh = (None, wFresh) \<and>
   CallGet (fileRemote rlDefault) \<notin> set (downloadCalls rlDefault wFresh) \<and>
   CallGet (fileRemote rlDefault) \<in> set (downloadCalls rlDefault (wFresh\<lparr>clock := 130\<rparr>)) \<and>
   CallGet (fileRemote rlDefault) \<in> set (downloadCalls rlDefault (wFresh\<lparr>files := Map.empty\<rparr>))"
proof -
  let ?f = "\<lparr>content = ''# comment\<newline>\<newline>1.2.3.4\<newline>// note\<newline>5.6.7.8'', ModTime = 70, Mode = 0x4001A0\<rparr>"
  have fresh: "files wFresh (fileLocal rlDefault) = Some ?f \<and> time_Since wFresh (ModTime ?f) < maxAge rlDefault"
    by (simp add: wFresh_def rlDefault_def time_Since_def minDuration_def maxDuration_def)
  have old: "files (wFresh\<lparr>clock := 130\<rparr>) (fileLocal rlDefault) = Some ?f \<and>
      maxAge rlDefault \<le> time_Since (wFresh\<lparr>clock := 130\<rparr>) (ModTime ?f)"
    by (simp add: wFresh_def rlDefault_def time_Since_def minDuration_def maxDuration_def)
  have absent: "files (wFresh\<lparr>files := Map.empty\<rparr>) (fileLocal rlDefault) = None"
    by simp
  from C3_staleness_gate [of rlDefault wFresh] fresh
  have 1: "download rlDefault wFresh = (None, wFresh)"
    and 2: "CallGet (fileRemote rlDefault) \<notin> set (downloadCalls rlDefault wFresh)"
    by auto
  from C3_staleness_gate [of rlDefault "wFresh\<lparr>clock := 130\<rparr>"] old
  have 3: "CallGet (fileRemote rlDefault) \<in> set (downloadCalls rlDefault (wFresh\<lparr>clock := 130\<rparr>))"
    by blast
  from C3_staleness_gate [of rlDefault "wFresh\<lparr>files := Map.empty\<rparr>"] absent
  have 4: "CallGet (fileRemote rlDefault) \<in> set (downloadCalls rlDefault (wFresh\<lparr>files := Map.empty\<rparr>))"
    by blast
  from 1 2 3 4 show ?thesis by simp
qed

subsection \<open>C4: sorted output\<close>

text \<open>
  Claim C4, as amended. For every record set, \<^verbatim>\<open>List\<close> returns the records in
  increasing order, and \<^verbatim>\<open>Search\<close> does so when the search function is the default one.
  Neither depends on the order in which the map is iterated (and so on the order of
  insertion): for every list \<open>keys\<close> that holds each record once, the loops over \<open>keys\<close>
  give the same sorted results. With any other search function \<open>f\<close> configured,
  \<^verbatim>\<open>Search\<close> returns what \<open>f\<close> returns.
\<close>

theorem C4_sorted_output:
  "sorted (List rl) \<and>
   (fnSearch rl = Some (DefaultSearchFunc U) \<longrightarrow>
      (\<exists>res. Search rl trm = Some res \<and> sorted res)) \<and>
   (distinct keys \<and> set keys = fset (records rl) \<longrightarrow>
      ListOn keys = List rl \<and> sorted (ListOn keys) \<and>
      DefaultSearchFuncOn U keys trm = DefaultSearchFunc U (records rl) trm \<and>
      sorted (DefaultSearchFuncOn U keys trm)) \<and>
   (fnSearch rl = Some f \<longrightarrow> Search rl trm = Some (f (records rl) trm))"
proof (intro conjI impI)
  assume "fnSearch rl = Some f"
  then show "Search rl trm = Some (f (records rl) trm)"
    by (simp add: Search_def)
next
  show "sorted (List rl)" by (rule sorted_List)
next
  assume "fnSearch rl = Some (DefaultSearchFunc U)"
  then have "Search rl trm = Some (DefaultSearchFunc U (records rl) trm)"
    by (simp add: Search_def)
  moreover have "sorted (DefaultSearchFunc U (records rl) trm)"
    by (simp add: DefaultSearchFunc_def DefaultSearchFuncOn_def sorted_sortStrings)
  ultimately show "\<exists>res. Search rl trm = Some res \<and> sorted res" by simp
next
  assume k: "distinct keys \<and> set keys = fset (records rl)"
  then show "ListOn keys = List rl"
    by (simp add: List_def ListOn_any_order)
  show "sorted (ListOn keys)"
    by (simp add: ListOn_def sorted_sortStrings)
  from k show "DefaultSearchFuncOn U keys trm = DefaultSearchFunc U (records rl) trm"
    by (simp add: DefaultSearchFuncOn_any_order)
  show "sorted (DefaultSearchFuncOn U keys trm)"
    by (simp add: DefaultSearchFuncOn_def sorted_sortStrings)
qed

text \<open>
  C4 at the records \<^verbatim>\<open>"b"\<close>, \<^verbatim>\<open>"a"\<close>, inserted and iterated in this order.
\<close>

theorem C4_sorted_output_witness:
  "List (Add (Add rlDefault ''b'') ''a'') = [''a'', ''b''] \<and>
   sorted (List (Add (Add rlDefault ''b'') ''a'')) \<and>
   Search (Add (Add rlDefault ''b'') ''a'') [] = Some [''a'', ''b''] \<and>
   ListOn [''b'', ''a''] = List (Add (Add rlDefault ''b'') ''a'') \<and>
   DefaultSearchFuncOn noTables [''b'', ''a''] [] = [''a'', ''b'']"
proof -
  let ?rl = "Add (Add rlDefault ''b'') ''a''"
  have f: "fnSearch ?rl = Some (DefaultSearchFunc noTables)"
    by (simp add: Add_def rlDefault_def)
  have k: "distinct [''b'', ''a''] \<and> set [''b'', ''a''] = fset (records ?rl)"
    by code_simp
  have l: "List ?rl = [''a'', ''b'']" by code_simp
  have s: "DefaultSearchFunc noTables (records ?rl) [] = [''a'', ''b'']" by code_simp
  have s': "Search ?rl [] = Some [''a'', ''b'']" by code_simp
  from C4_sorted_output
    [where rl = ?rl and U = noTables and trm = "[]" and keys = "[''b'', ''a'']"
      and f = "DefaultSearchFunc noTables"] f k l s s' show ?thesis
    by simp
qed

text \<open>
  Claim C4 as it is written fails for \<^verbatim>\<open>Search\<close>: it returns what the configured search
  function returns, and a function of the caller need not sort. With \<open>reverseSearch\<close>
  configured and the records \<^verbatim>\<open>"a"\<close>, \<^verbatim>\<open>"b"\<close>, \<^verbatim>\<open>Search("")\<close> returns \<^verbatim>\<open>["b", "a"]\<close>.
\<close>

theorem C4_custom_search_counterexample:
  "Search (Add (Add (rlDefault\<lparr>fnSearch := Some (reverseSearch noTables)\<rparr>) ''b'') ''a'') [] = Some [''b'', ''a''] \<and>
   \<not> sorted [''b'', ''a'']"
  by code_simp

subsection \<open>C5: adding twice\<close>

text \<open>
  Claim C5. For every string \<open>x\<close> and every instance, the second \<^verbatim>\<open>Add(x)\<close> changes
  nothing; after it the trimmed \<open>x\<close> is a record, \<^verbatim>\<open>List()\<close> holds it exactly once, and
  \<^verbatim>\<open>List()\<close> is as long as after the first \<^verbatim>\<open>Add(x)\<close>.
\<close>

theorem C5_idempotent_Add:
  "Add (Add rl x) x = Add rl x \<and>
   TrimSpace x |\<in>| records (Add (Add rl x) x) \<and>
   count_list (List (Add (Add rl x) x)) (TrimSpace x) = 1 \<and>
   length (List (Add (Add rl x) x)) = length (List (Add rl x))"
proof -
  have "TrimSpace x \<in> set (List (Add rl x))"
    by (simp add: set_List records_Add)
  then have "count_list (List (Add rl x)) (TrimSpace x) = 1"
    by (simp add: count_list_distinct distinct_List)
  then show ?thesis
    by (simp add: Add_twice records_Add)
qed

text \<open>
  C5 at \<^verbatim>\<open>Add(" a ")\<close> on the empty record set.
\<close>

theorem C5_idempotent_Add_witness:
  "Add (Add rlDefault '' a '') '' a '' = Add rlDefault '' a '' \<and>
   records (Add (Add rlDefault '' a '') '' a '') = {|''a''|} \<and>
   List (Add (Add rlDefault '' a '') '' a '') = [''a''] \<and>
   count_list (List (Add (Add rlDefault '' a '') '' a '')) ''a'' = 1"
proof -
  have t: "TrimSpace '' a '' = ''a''" by code_simp
  have l: "List (Add (Add rlDefault '' a '') '' a '') = [''a'']" by code_simp
  have r: "records (Add (Add rlDefault '' a '') '' a '') = {|''a''|}" by code_simp
  from C5_idempotent_Add [of rlDefault "'' a ''"] t l r show ?thesis by simp
qed

subsection \<open>C6: the permissions of the write\<close>

text \<open>
  Claim C6. Every write that \<^verbatim>\<open>download\<close> makes goes to the local file, with the
  permission bits \<^verbatim>\<open>Mode().Perm()\<close> of the file if it existed before and with \<^verbatim>\<open>0644\<close>
  (hexadecimal 1A4: read and write for the owner, read for group and others) if it did
  not. The write is made whenever a download is needed and the fetch succeeds, and a
  file that existed keeps its mode.
\<close>

theorem C6_write_permissions:
  "(CallWriteFile name dat perm \<in> set (downloadCalls rl w) \<longrightarrow>
      name = fileLocal rl \<and>
      perm = (case files w (fileLocal rl) of None \<Rightarrow> 0x1A4 | Some f \<Rightarrow> Mode f AND 0x1FF)) \<and>
   (needsDownload rl w \<and> remote w (fileRemote rl) = Response 200 (Body dat) \<longrightarrow>
      downloadCalls rl w =
        [CallGet (fileRemote rl),
         CallWriteFile (fileLocal rl)
           (case fnDataFiler rl of None \<Rightarrow> dat | Some g \<Rightarrow> g dat)
           (case files w (fileLocal rl) of None \<Rightarrow> 0x1A4 | Some f \<Rightarrow> Mode f AND 0x1FF)]) \<and>
   (files w (fileLocal rl) = Some f \<longrightarrow>
      (\<exists>f'. files (snd (download rl w)) (fileLocal rl) = Some f' \<and> Mode f' = Mode f))"
proof -
  have a: "name = fileLocal rl \<and>
      perm = (case files w (fileLocal rl) of None \<Rightarrow> 0x1A4 | Some f \<Rightarrow> Mode f AND 0x1FF)"
    if "CallWriteFile name dat perm \<in> set (downloadCalls rl w)"
    using that
    by (cases "needsDownload rl w")
      (auto simp: downloadCalls_fresh downloadCalls_needsDownload Perm_def
        split: reply.splits body.splits if_splits option.splits)
  have b: "downloadCalls rl w =
        [CallGet (fileRemote rl),
         CallWriteFile (fileLocal rl)
           (case fnDataFiler rl of None \<Rightarrow> dat | Some g \<Rightarrow> g dat)
           (case files w (fileLocal rl) of None \<Rightarrow> 0x1A4 | Some f \<Rightarrow> Mode f AND 0x1FF)]"
    if "needsDownload rl w \<and> remote w (fileRemote rl) = Response 200 (Body dat)"
    using that by (simp add: downloadCalls_needsDownload Perm_def split: option.splits)
  have c: "\<exists>f'. files (snd (download rl w)) (fileLocal rl) = Some f' \<and> Mode f' = Mode f"
    if "files w (fileLocal rl) = Some f"
    using that
    by (cases "needsDownload rl w")
      (auto simp: download_fresh download_needsDownload os_WriteFile_def Let_def
        split: reply.splits body.splits option.splits)
  from a b c show ?thesis by blast
qed

text \<open>
  C6 at \<open>wFresh\<close> with the clock at 130: the existing file has the mode
  \<^verbatim>\<open>setgid | 0640\<close> and is written with \<^verbatim>\<open>0640\<close> (hexadecimal 1A0); without the file the
  write uses \<^verbatim>\<open>0644\<close>.
\<close>

theorem C6_write_permissions_witness:
  "downloadCalls rlDefault (wFresh\<lparr>clock := 130\<rparr>) =
     [CallGet ''http://example.com/list.txt'', CallWriteFile ''list.txt'' ''9.9.9.9'' 0x1A0] \<and>
   downloadCalls rlDefault (wFresh\<lparr>clock := 130, files := Map.empty\<rparr>) =
     [CallGet ''http://example.com/list.txt'', CallWriteFile ''list.txt'' ''9.9.9.9'' 0x1A4]"
proof -
  let ?w1 = "wFresh\<lparr>clock := 130\<rparr>" and ?w2 = "wFresh\<lparr>clock := 130, files := Map.empty\<rparr>"
  have n: "needsDownload rlDefault ?w1 \<and> remote ?w1 (fileRemote rlDefault) = Response 200 (Body ''9.9.9.9'')"
    "needsDownload rlDefault ?w2 \<and> remote ?w2 (fileRemote rlDefault) = Response 200 (Body ''9.9.9.9'')"
    by (simp_all add: needsDownload_def rlDefault_def wFresh_def time_Since_def minDuration_def
        maxDuration_def)
  note c1 = C6_write_permissions [where dat = "''9.9.9.9''" and rl = rlDefault and w = ?w1,
      THEN conjunct2, THEN conjunct1, rule_format, OF n(1)]
  note c2 = C6_write_permissions [where dat = "''9.9.9.9''" and rl = rlDefault and w = ?w2,
      THEN conjunct2, THEN conjunct1, rule_format, OF n(2)]
  have 1: "downloadCalls rlDefault ?w1 =
     [CallGet ''http://example.com/list.txt'', CallWriteFile ''list.txt'' ''9.9.9.9'' 0x1A0]"
    unfolding c1 by (simp add: rlDefault_def wFresh_def)
  have 2: "downloadCalls rlDefault ?w2 =
     [CallGet ''http://example.com/list.txt'', CallWriteFile ''list.txt'' ''9.9.9.9'' 0x1A4]"
    unfolding c2 by (simp add: rlDefault_def wFresh_def)
  from 1 2 show ?thesis by simp
qed

subsection \<open>C7: a failed fetch\<close>

text \<open>
  Claim C7. When a download is needed and the fetch fails in transport (no reply, a
  status outside 200 to 299, or an unreadable body), \<^verbatim>\<open>download\<close> returns one of its three
  fetch errors: the one for a failed request, the one for the status (for every status
  other than 200), or the one for the body. The world is as before but for the one
  request recorded: the files are unchanged and nothing was written.
\<close>

theorem C7_fetch_failure:
  "needsDownload rl w \<and> transportFailure (remote w (fileRemote rl)) \<longrightarrow>
     (\<exists>err. fst (download rl w) = Some err \<and> fetchError err) \<and>
     snd (download rl w) = w\<lparr>calls := calls w @ [CallGet (fileRemote rl)]\<rparr> \<and>
     files (snd (download rl w)) = files w \<and>
     downloadCalls rl w = [CallGet (fileRemote rl)] \<and>
     (\<forall>e. remote w (fileRemote rl) = GetErr e \<longrightarrow>
        fst (download rl w) = Some (DownloadFailed e)) \<and>
     (\<forall>statusCode b. remote w (fileRemote rl) = Response statusCode b \<and> statusCode \<noteq> 200 \<longrightarrow>
        fst (download rl w) = Some (DownloadStatus statusCode)) \<and>
     (\<forall>e. remote w (fileRemote rl) = Response 200 (BodyErr e) \<longrightarrow>
        fst (download rl w) = Some (DownloadRead e))"
proof
  assume a: "needsDownload rl w \<and> transportFailure (remote w (fileRemote rl))"
  then have n: "needsDownload rl w" and t: "transportFailure (remote w (fileRemote rl))"
    by simp_all
  from t have d: "download rl w =
      (case remote w (fileRemote rl) of
         GetErr e \<Rightarrow> Some (DownloadFailed e)
       | Response statusCode b \<Rightarrow>
           if statusCode \<noteq> 200 then Some (DownloadStatus statusCode)
           else (case b of BodyErr e \<Rightarrow> Some (DownloadRead e) | Body dat \<Rightarrow> None),
       w\<lparr>calls := calls w @ [CallGet (fileRemote rl)]\<rparr>)"
    by (auto simp: download_needsDownload [OF n] transportFailure_def Let_def
        split: reply.splits body.splits)
  from t show "(\<exists>err. fst (download rl w) = Some err \<and> fetchError err) \<and>
     snd (download rl w) = w\<lparr>calls := calls w @ [CallGet (fileRemote rl)]\<rparr> \<and>
     files (snd (download rl w)) = files w \<and>
     downloadCalls rl w = [CallGet (fileRemote rl)] \<and>
     (\<forall>e. remote w (fileRemote rl) = GetErr e \<longrightarrow>
        fst (download rl w) = Some (DownloadFailed e)) \<and>
     (\<forall>statusCode b. remote w (fileRemote rl) = Response statusCode b \<and> statusCode \<noteq> 200 \<longrightarrow>
        fst (download rl w) = Some (DownloadStatus statusCode)) \<and>
     (\<forall>e. remote w (fileRemote rl) = Response 200 (BodyErr e) \<longrightarrow>
        fst (download rl w) = Some (DownloadRead e))"
    unfolding downloadCalls_def d
    by (auto simp: transportFailure_def split: reply.splits body.splits)
qed

text \<open>
  C7 at \<open>wFresh\<close> with the clock at 130, for a reply with status 404, for no reply and
  for a body that cannot be read.
\<close>

theorem C7_fetch_failure_witness:
  "fst (download rlDefault (wFresh\<lparr>clock := 130, remote := \<lambda>url. Response 404 (Body ''not found'')\<rparr>)) =
     Some (DownloadStatus 404) \<and>
   files (snd (download rlDefault (wFresh\<lparr>clock := 130, remote := \<lambda>url. Response 404 (Body ''not found'')\<rparr>))) =
     files wFresh \<and>
   fst (download rlDefault (wFresh\<lparr>clock := 130, remote := \<lambda>url. GetErr ''no route to host''\<rparr>)) =
     Some (DownloadFailed ''no route to host'') \<and>
   fst (download rlDefault (wFresh\<lparr>clock := 130, remote := \<lambda>url. Response 200 (BodyErr ''unexpected EOF'')\<rparr>)) =
     Some (DownloadRead ''unexpected EOF'')"
proof -
  let ?w1 = "wFresh\<lparr>clock := 130, remote := \<lambda>url. Response 404 (Body ''not found'')\<rparr>"
  let ?w2 = "wFresh\<lparr>clock := 130, remote := \<lambda>url. GetErr ''no route to host''\<rparr>"
  let ?w3 = "wFresh\<lparr>clock := 130, remote := \<lambda>url. Response 200 (BodyErr ''unexpected EOF'')\<rparr>"
  have n: "needsDownload rlDefault ?w1 \<and> transportFailure (remote ?w1 (fileRemote rlDefault))"
    "needsDownload rlDefault ?w2 \<and> transportFailure (remote ?w2 (fileRemote rlDefault))"
    "needsDownload rlDefault ?w3 \<and> transportFailure (remote ?w3 (fileRemote rlDefault))"
    by (simp_all add: needsDownload_def rlDefault_def wFresh_def time_Since_def minDuration_def
        maxDuration_def transportFailure_def)
  from C7_fetch_failure [of rlDefault ?w1] n(1)
  have 1: "fst (download rlDefault ?w1) = Some (DownloadStatus 404)"
    and 2: "files (snd (download rlDefault ?w1)) = files wFresh"
    by simp_all
  from C7_fetch_failure [of rlDefault ?w2] n(2)
  have 3: "fst (download rlDefault ?w2) = Some (DownloadFailed ''no route to host'')"
    by simp
  from C7_fetch_failure [of rlDefault ?w3] n(3)
  have 4: "fst (download rlDefault ?w3) = Some (DownloadRead ''unexpected EOF'')"
    by simp
  from 1 2 3 4 show ?thesis by simp
qed

subsection \<open>C8: the default line filter\<close>

text \<open>
  Claim C8. With the default per-line processor and an empty record set, loading a file
  with the lines \<^verbatim>\<open># comment\<close>, the empty line, \<^verbatim>\<open>1.2.3.4\<close>, \<^verbatim>\<open>// note\<close> and \<^verbatim>\<open>5.6.7.8\<close>
  (with or without a line feed after the last line) succeeds and leaves exactly the
  records \<^verbatim>\<open>1.2.3.4\<close> and \<^verbatim>\<open>5.6.7.8\<close>; the five lines joined by line feeds are such a
  file. The default
  processor returns every line unchanged and includes it iff it is not empty and starts
  with neither \<^verbatim>\<open>#\<close> nor \<^verbatim>\<open>//\<close>.
\<close>

theorem C8_default_line_filter:
  "(fnDataLine rl = Some DefaultDataLineProcessFunc \<and> records rl = {||} \<and>
    os_ReadFile w (fileLocal rl) = Inr fileData \<and>
    (Split fileData = [''# comment'', [], ''1.2.3.4'', ''// note'', ''5.6.7.8''] \<or>
     Split fileData = [''# comment'', [], ''1.2.3.4'', ''// note'', ''5.6.7.8'', []]) \<longrightarrow>
      init rl w = (None, rl\<lparr>records := {|''1.2.3.4'', ''5.6.7.8''|}\<rparr>)) \<and>
   Split ''# comment\<newline>\<newline>1.2.3.4\<newline>// note\<newline>5.6.7.8'' =
     [''# comment'', [], ''1.2.3.4'', ''// note'', ''5.6.7.8''] \<and>
   fst (DefaultDataLineProcessFunc line) = line \<and>
   (snd (DefaultDataLineProcessFunc line) \<longleftrightarrow>
      line \<noteq> [] \<and> (\<forall>t. line \<noteq> ''#'' @ t) \<and> (\<forall>t. line \<noteq> ''//'' @ t))"
proof -
  have a: "init rl w = (None, rl\<lparr>records := {|''1.2.3.4'', ''5.6.7.8''|}\<rparr>)"
    if h: "fnDataLine rl = Some DefaultDataLineProcessFunc \<and> records rl = {||} \<and>
      os_ReadFile w (fileLocal rl) = Inr fileData \<and>
      (Split fileData = [''# comment'', [], ''1.2.3.4'', ''// note'', ''5.6.7.8''] \<or>
       Split fileData = [''# comment'', [], ''1.2.3.4'', ''// note'', ''5.6.7.8'', []])"
  proof -
    from h consider
      "Split fileData = [''# comment'', [], ''1.2.3.4'', ''// note'', ''5.6.7.8'']" |
      "Split fileData = [''# comment'', [], ''1.2.3.4'', ''// note'', ''5.6.7.8'', []]"
      by blast
    then show ?thesis
    proof cases
      case 1
      with h show ?thesis
        by (simp add: init_ok DefaultDataLineProcessFunc_def HasPrefix_def TrimSpace_example)
    next
      case 2
      with h show ?thesis
        by (simp add: init_ok DefaultDataLineProcessFunc_def HasPrefix_def TrimSpace_example)
    qed
  qed
  have b: "fst (DefaultDataLineProcessFunc line) = line"
    by (simp add: DefaultDataLineProcessFunc_def)
  have c: "snd (DefaultDataLineProcessFunc line) \<longleftrightarrow>
      line \<noteq> [] \<and> (\<forall>t. line \<noteq> ''#'' @ t) \<and> (\<forall>t. line \<noteq> ''//'' @ t)"
    unfolding DefaultDataLineProcessFunc_def HasPrefix_iff by auto
  from a b c Split_example show ?thesis by blast
qed

text \<open>
  C8 at \<open>wFresh\<close>, whose local file has these five lines: \<^verbatim>\<open>init\<close>, and \<^verbatim>\<open>NewSimple\<close> as
  a whole, give the two records.
\<close>

theorem C8_default_line_filter_witness:
  "os_ReadFile wFresh ''list.txt'' =
     Inr ''# comment\<newline>\<newline>1.2.3.4\<newline>// note\<newline>5.6.7.8'' \<and>
   init rlDefault wFresh = (None, rlDefault\<lparr>records := {|''1.2.3.4'', ''5.6.7.8''|}\<rparr>) \<and>
   NewSimple noTables ''list.txt'' ''http://example.com/list.txt'' 60 wFresh =
     ((Some (rlDefault\<lparr>records := {|''1.2.3.4'', ''5.6.7.8''|}\<rparr>), None), wFresh)"
proof -
  have h: "fnDataLine rlDefault = Some DefaultDataLineProcessFunc \<and> records rlDefault = {||} \<and>
    os_ReadFile wFresh (fileLocal rlDefault) =
      Inr ''# comment\<newline>\<newline>1.2.3.4\<newline>// note\<newline>5.6.7.8''"
    by (simp add: rlDefault_def wFresh_def os_ReadFile_def)
  note c = C8_default_line_filter
    [where rl = rlDefault and w = wFresh
      and fileData = "''# comment\<newline>\<newline>1.2.3.4\<newline>// note\<newline>5.6.7.8''"]
  from c h
  have i: "init rlDefault wFresh = (None, rlDefault\<lparr>records := {|''1.2.3.4'', ''5.6.7.8''|}\<rparr>)"
    by blast
  have d: "download rlDefault wFresh = (None, wFresh)"
    by (simp add: download_fresh needsDownload_def rlDefault_def wFresh_def time_Since_def
        minDuration_def maxDuration_def)
  have r: "\<lparr>fnSearch = orDefault None (DefaultSearchFunc noTables), fnHas = orDefault None (DefaultHasFunc noTables),
      fnHasPrefix = orDefault None (DefaultHasPrefixFunc noTables),
      fnHasSuffix = orDefault None (DefaultHasSuffixFunc noTables), fnDataFiler = None,
      fnDataLine = orDefault None DefaultDataLineProcessFunc, maxAge = 60,
      fileLocal = ''list.txt'', fileRemote = ''http://example.com/list.txt'',
      records = {||}\<rparr> = rlDefault"
    by (simp add: rlDefault_def orDefault_def)
  have "NewSimple noTables ''list.txt'' ''http://example.com/list.txt'' 60 wFresh =
     ((Some (rlDefault\<lparr>records := {|''1.2.3.4'', ''5.6.7.8''|}\<rparr>), None), wFresh)"
    unfolding NewSimple_def New_def Let_def r by (simp add: d i)
  with h i show ?thesis by (simp add: rlDefault_def)
qed

subsection \<open>C9: the default matchers\<close>

text \<open>
  Claim C9, as amended. With the default \<^verbatim>\<open>Has\<close> function and the record \<^verbatim>\<open>Example.com\<close>
  present, \<^verbatim>\<open>Has("example.com")\<close> is true, whatever the other records are. With the default
  search function and \<^verbatim>\<open>Example.com\<close> present, \<^verbatim>\<open>Search("EXAM")\<close> returns exactly
  \<^verbatim>\<open>["Example.com"]\<close> when no other record contains \<^verbatim>\<open>exam\<close> after lower-casing, in
  particular when \<^verbatim>\<open>Example.com\<close> is the only record. In general, for all records and
  terms: the default \<^verbatim>\<open>Has\<close> holds iff \<^verbatim>\<open>strings.EqualFold\<close> matches some record with the
  lower-cased term, and the default search returns, sorted and without repetition, the
  records whose lower-cased form contains the lower-cased term. For ASCII records and an
  ASCII term that is: some record equals the term, and the records contain the term,
  after the letters \<^verbatim>\<open>A\<close> to \<^verbatim>\<open>Z\<close> of both are put in lower case.
\<close>

theorem C9_default_matchers:
  "(fnHas rl = Some (DefaultHasFunc U) \<and> ''Example.com'' |\<in>| records rl \<longrightarrow>
      Has rl ''example.com'' = Some True) \<and>
   (fnSearch rl = Some (DefaultSearchFunc U) \<and> ''Example.com'' |\<in>| records rl \<and>
    (\<forall>r. r |\<in>| records rl \<and> r \<noteq> ''Example.com'' \<longrightarrow>
       \<not> Contains (ToLower U r) ''exam'') \<longrightarrow>
      Search rl ''EXAM'' = Some [''Example.com'']) \<and>
   (fnSearch rl = Some (DefaultSearchFunc U) \<and> records rl = {|''Example.com''|} \<longrightarrow>
      Search rl ''EXAM'' = Some [''Example.com'']) \<and>
   (DefaultHasFunc U recs trm \<longleftrightarrow>
      (\<exists>r. r |\<in>| recs \<and> EqualFold U r (ToLower U trm))) \<and>
   set (DefaultSearchFunc U recs trm) =
     {r. r |\<in>| recs \<and> (\<exists>a b. ToLower U r = a @ ToLower U trm @ b)} \<and>
   sorted (DefaultSearchFunc U recs trm) \<and> distinct (DefaultSearchFunc U recs trm) \<and>
   ((\<forall>r. r |\<in>| recs \<longrightarrow> isASCII r) \<and> isASCII trm \<longrightarrow>
      (DefaultHasFunc U recs trm \<longleftrightarrow>
         (\<exists>r. r |\<in>| recs \<and> map lowerByte r = map lowerByte trm)) \<and>
      set (DefaultSearchFunc U recs trm) =
        {r. r |\<in>| recs \<and> (\<exists>a b. map lowerByte r = a @ map lowerByte trm @ b)})"
proof -
  have has: "Has rl ''example.com'' = Some True"
    if h: "fnHas rl = Some (DefaultHasFunc U) \<and> ''Example.com'' |\<in>| records rl"
  proof -
    have "EqualFold U ''Example.com'' (ToLower U ''example.com'')"
      by (simp only: ToLower_examples)
    with h have "\<exists>r. r |\<in>| records rl \<and> EqualFold U r (ToLower U ''example.com'')"
      by blast
    then have "DefaultHasFunc U (records rl) ''example.com''"
      by (simp only: DefaultHasFunc_iff)
    with h show ?thesis
      by (simp add: Has_def)
  qed
  have search: "Search rl ''EXAM'' = Some [''Example.com'']"
    if h: "fnSearch rl = Some (DefaultSearchFunc U) \<and> ''Example.com'' |\<in>| records rl \<and>
      (\<forall>r. r |\<in>| records rl \<and> r \<noteq> ''Example.com'' \<longrightarrow>
         \<not> Contains (ToLower U r) ''exam'')"
  proof -
    have hit: "Contains (ToLower U ''Example.com'') (ToLower U ''EXAM'')"
      by (simp only: ToLower_examples)
    have "r \<in> set (DefaultSearchFunc U (records rl) ''EXAM'') \<longleftrightarrow> r = ''Example.com''" for r
    proof (cases "r = ''Example.com''")
      case True
      with h hit show ?thesis
        by (simp only: set_DefaultSearchFunc mem_Collect_eq simp_thms)
    next
      case False
      with h have "r |\<in>| records rl \<longrightarrow> \<not> Contains (ToLower U r) (ToLower U ''EXAM'')"
        by (simp only: ToLower_examples) blast
      with False show ?thesis
        by (simp only: set_DefaultSearchFunc mem_Collect_eq) blast
    qed
    then have "set (DefaultSearchFunc U (records rl) ''EXAM'') = {''Example.com''}"
      by blast
    then have "DefaultSearchFunc U (records rl) ''EXAM'' = [''Example.com'']"
      by (intro distinct_singleton distinct_DefaultSearchFunc)
    with h show ?thesis
      by (simp add: Search_def)
  qed
  have only: "Search rl ''EXAM'' = Some [''Example.com'']"
    if h: "fnSearch rl = Some (DefaultSearchFunc U) \<and> records rl = {|''Example.com''|}"
  proof -
    from h have "fnSearch rl = Some (DefaultSearchFunc U) \<and> ''Example.com'' |\<in>| records rl \<and>
      (\<forall>r. r |\<in>| records rl \<and> r \<noteq> ''Example.com'' \<longrightarrow>
         \<not> Contains (ToLower U r) ''exam'')"
      by simp
    then show ?thesis
      by (rule search)
  qed
  have general: "set (DefaultSearchFunc U recs trm) =
     {r. r |\<in>| recs \<and> (\<exists>a b. ToLower U r = a @ ToLower U trm @ b)}"
    by (simp add: set_DefaultSearchFunc Contains_iff)
  have srt: "sorted (DefaultSearchFunc U recs trm)"
    by (simp add: DefaultSearchFunc_def DefaultSearchFuncOn_def sorted_sortStrings)
  have ascii: "(DefaultHasFunc U recs trm \<longleftrightarrow>
         (\<exists>r. r |\<in>| recs \<and> map lowerByte r = map lowerByte trm)) \<and>
      set (DefaultSearchFunc U recs trm) =
        {r. r |\<in>| recs \<and> (\<exists>a b. map lowerByte r = a @ map lowerByte trm @ b)}"
    if a: "(\<forall>r. r |\<in>| recs \<longrightarrow> isASCII r) \<and> isASCII trm"
  proof
    from a show "DefaultHasFunc U recs trm \<longleftrightarrow>
        (\<exists>r. r |\<in>| recs \<and> map lowerByte r = map lowerByte trm)"
      unfolding DefaultHasFunc_iff using EqualFold_ToLower_ASCII [of _ trm U] by blast
    from a have t: "ToLower U trm = map lowerByte trm"
      by (simp add: ToLower_ASCII)
    have "(r |\<in>| recs \<and> (\<exists>a b. ToLower U r = a @ ToLower U trm @ b)) \<longleftrightarrow>
        (r |\<in>| recs \<and> (\<exists>a b. map lowerByte r = a @ map lowerByte trm @ b))" for r
    proof (cases "r |\<in>| recs")
      case True
      with a have "ToLower U r = map lowerByte r"
        by (simp add: ToLower_ASCII)
      with t show ?thesis by simp
    next
      case False
      then show ?thesis by simp
    qed
    then show "set (DefaultSearchFunc U recs trm) =
        {r. r |\<in>| recs \<and> (\<exists>a b. map lowerByte r = a @ map lowerByte trm @ b)}"
      unfolding general by (rule Collect_cong)
  qed
  from has search only general srt ascii DefaultHasFunc_iff [of U recs trm]
    distinct_DefaultSearchFunc [of U recs trm]
  show ?thesis by blast
qed

text \<open>
  C9 at the record set of \<^verbatim>\<open>Example.com\<close> alone, and with \<^verbatim>\<open>other.org\<close> beside it.
\<close>

theorem C9_default_matchers_witness:
  "Has (Add rlDefault ''Example.com'') ''example.com'' = Some True \<and>
   Search (Add rlDefault ''Example.com'') ''EXAM'' = Some [''Example.com''] \<and>
   Has (Add (Add rlDefault ''Example.com'') ''other.org'') ''example.com'' = Some True \<and>
   Search (Add (Add rlDefault ''Example.com'') ''other.org'') ''EXAM'' = Some [''Example.com'']"
proof -
  let ?rl = "Add rlDefault ''Example.com''"
  let ?rl2 = "Add ?rl ''other.org''"
  have f: "fnHas ?rl = Some (DefaultHasFunc noTables)"
    "fnSearch ?rl = Some (DefaultSearchFunc noTables)"
    "fnHas ?rl2 = Some (DefaultHasFunc noTables)"
    "fnSearch ?rl2 = Some (DefaultSearchFunc noTables)"
    by (simp_all add: Add_def rlDefault_def)
  have t: "TrimSpace ''Example.com'' = ''Example.com''" "TrimSpace ''other.org'' = ''other.org''"
    "\<not> Contains (ToLower noTables ''other.org'') ''exam''"
    by code_simp+
  have m: "''Example.com'' |\<in>| records ?rl" "''Example.com'' |\<in>| records ?rl2"
    by (simp_all add: records_Add t)
  have e: "records ?rl = {|''Example.com''|}"
    by (simp add: records_Add t rlDefault_def)
  have o: "\<forall>r. r |\<in>| records ?rl2 \<and> r \<noteq> ''Example.com'' \<longrightarrow>
      \<not> Contains (ToLower noTables r) ''exam''"
    using t(3) by (auto simp: records_Add t rlDefault_def)
  note c1 = C9_default_matchers [where rl = ?rl and U = noTables]
  note c2 = C9_default_matchers [where rl = ?rl2 and U = noTables]
  from c1 f m e
  have 1: "Has ?rl ''example.com'' = Some True" and 2: "Search ?rl ''EXAM'' = Some [''Example.com'']"
    by blast+
  from c2 f m o
  have 3: "Has ?rl2 ''example.com'' = Some True" and 4: "Search ?rl2 ''EXAM'' = Some [''Example.com'']"
    by blast+
  from 1 2 3 4 show ?thesis by simp
qed

text \<open>
  Claim C9 as it is written fails for \<^verbatim>\<open>Search\<close>: the default search returns every match.
  With the default matchers and the records \<^verbatim>\<open>Example.com\<close> and \<^verbatim>\<open>exam.org\<close>,
  \<^verbatim>\<open>Search("EXAM")\<close> returns both, not \<^verbatim>\<open>["Example.com"]\<close> alone.
\<close>

theorem C9_second_match_counterexample:
  "fnSearch (Add (Add rlDefault ''Example.com'') ''exam.org'') = Some (DefaultSearchFunc noTables) \<and>
   fnHas (Add (Add rlDefault ''Example.com'') ''exam.org'') = Some (DefaultHasFunc noTables) \<and>
   ''Example.com'' |\<in>| records (Add (Add rlDefault ''Example.com'') ''exam.org'') \<and>
   Search (Add (Add rlDefault ''Example.com'') ''exam.org'') ''EXAM'' =
     Some [''Example.com'', ''exam.org''] \<and>
   Search (Add (Add rlDefault ''Example.com'') ''exam.org'') ''EXAM'' \<noteq> Some [''Example.com'']"
proof -
  let ?rl = "Add (Add rlDefault ''Example.com'') ''exam.org''"
  have f: "fnSearch ?rl = Some (DefaultSearchFunc noTables)"
    "fnHas ?rl = Some (DefaultHasFunc noTables)"
    by (simp_all add: Add_def rlDefault_def)
  have m: "''Example.com'' |\<in>| records ?rl"
    by code_simp
  have s: "Search ?rl ''EXAM'' = Some [''Example.com'', ''exam.org'']"
    by code_simp
  from f m s show ?thesis by simp
qed

subsection \<open>C10: a line of white space\<close>

text \<open>
  Claim C10. The default per-line processor includes every non-empty string that
  consists of white space only, and \<^verbatim>\<open>Add\<close> trims it to the empty string. So when the
  default processor is configured and the local file has such a line, the load succeeds
  and the empty string is a record and an entry of \<^verbatim>\<open>List()\<close>. Every string of ASCII
  white space bytes is such a string (\<open>whiteSpaceOnly_ascii\<close>).
\<close>

theorem C10_whitespace_line_gives_empty_record:
  "(whiteSpaceOnly s \<and> s \<noteq> [] \<longrightarrow>
      DefaultDataLineProcessFunc s = (s, True) \<and> TrimSpace s = [] \<and>
      [] |\<in>| records (Add rl s)) \<and>
   (fnDataLine rl = Some DefaultDataLineProcessFunc \<and>
    os_ReadFile w (fileLocal rl) = Inr fileData \<and>
    line \<in> set (Split fileData) \<and> whiteSpaceOnly line \<and> line \<noteq> [] \<longrightarrow>
      fst (init rl w) = None \<and>
      [] |\<in>| records (snd (init rl w)) \<and>
      [] \<in> set (List (snd (init rl w))))"
proof (intro conjI)
  show "whiteSpaceOnly s \<and> s \<noteq> [] \<longrightarrow>
      DefaultDataLineProcessFunc s = (s, True) \<and> TrimSpace s = [] \<and>
      [] |\<in>| records (Add rl s)"
    by (simp add: whiteSpaceOnly_included TrimSpace_whiteSpaceOnly records_Add)
next
  show "fnDataLine rl = Some DefaultDataLineProcessFunc \<and>
    os_ReadFile w (fileLocal rl) = Inr fileData \<and>
    line \<in> set (Split fileData) \<and> whiteSpaceOnly line \<and> line \<noteq> [] \<longrightarrow>
      fst (init rl w) = None \<and>
      [] |\<in>| records (snd (init rl w)) \<and>
      [] \<in> set (List (snd (init rl w)))"
  proof
    assume h: "fnDataLine rl = Some DefaultDataLineProcessFunc \<and>
      os_ReadFile w (fileLocal rl) = Inr fileData \<and>
      line \<in> set (Split fileData) \<and> whiteSpaceOnly line \<and> line \<noteq> []"
    then have inc: "DefaultDataLineProcessFunc line = (line, True)" and tr: "TrimSpace line = []"
      by (simp_all add: whiteSpaceOnly_included TrimSpace_whiteSpaceOnly)
    from h have i: "init rl w =
      (None, rl\<lparr>records := records rl |\<union>|
        fset_of_list (map (\<lambda>line. TrimSpace (fst (DefaultDataLineProcessFunc line)))
          (filter (\<lambda>line. snd (DefaultDataLineProcessFunc line)) (Split fileData)))\<rparr>)"
      by (simp add: init_ok)
    from h inc tr have "[] \<in> (\<lambda>line. TrimSpace (fst (DefaultDataLineProcessFunc line))) `
        set (filter (\<lambda>line. snd (DefaultDataLineProcessFunc line)) (Split fileData))"
      by (intro image_eqI [where x = line]) simp_all
    then have "[] |\<in>| records (snd (init rl w))"
      by (auto simp: i fset_of_list.rep_eq)
    then show "fst (init rl w) = None \<and>
      [] |\<in>| records (snd (init rl w)) \<and>
      [] \<in> set (List (snd (init rl w)))"
      by (simp add: i set_List)
  qed
qed

text \<open>
  C10 at the line of a space and a tab, the second line of the file in \<open>wWhite\<close>.
\<close>

theorem C10_whitespace_line_witness:
  "whiteSpaceOnly [CHR 0x20, CHR 0x09] \<and>
   DefaultDataLineProcessFunc [CHR 0x20, CHR 0x09] = ([CHR 0x20, CHR 0x09], True) \<and>
   TrimSpace [CHR 0x20, CHR 0x09] = [] \<and>
   [CHR 0x20, CHR 0x09] \<in> set (Split (''1.2.3.4'' @ [CHR 0x0A, CHR 0x20, CHR 0x09, CHR 0x0A] @ ''5.6.7.8'')) \<and>
   [] |\<in>| records (snd (init rlDefault wWhite)) \<and>
   [] \<in> set (List (snd (init rlDefault wWhite)))"
proof -
  let ?s = "[CHR 0x20, CHR 0x09]"
  let ?c = "''1.2.3.4'' @ [CHR 0x0A, CHR 0x20, CHR 0x09, CHR 0x0A] @ ''5.6.7.8''"
  have tab: "[CHR 0x09] \<in> set spaceRunes" and sp: "[CHR 0x20] \<in> set spaceRunes"
    by (simp_all add: spaceRunes_def asciiSpace_def)
  have "whiteSpaceOnly ([CHR 0x09] @ [])"
    by (rule whiteSpaceOnly.rune [OF tab whiteSpaceOnly.empty])
  then have "whiteSpaceOnly ([CHR 0x20] @ ([CHR 0x09] @ []))"
    by (rule whiteSpaceOnly.rune [OF sp])
  then have ws: "whiteSpaceOnly ?s" by simp
  have sl: "Split ?c = [''1.2.3.4'', ?s, ''5.6.7.8'']" by code_simp
  have h: "fnDataLine rlDefault = Some DefaultDataLineProcessFunc \<and>
    os_ReadFile wWhite (fileLocal rlDefault) = Inr ?c \<and>
    ?s \<in> set (Split ?c) \<and> whiteSpaceOnly ?s \<and> ?s \<noteq> []"
    using ws by (simp add: sl rlDefault_def wWhite_def wFresh_def os_ReadFile_def)
  from C10_whitespace_line_gives_empty_record
    [where s = ?s and rl = rlDefault and w = wWhite and fileData = ?c and line = ?s] ws h
  have 1: "DefaultDataLineProcessFunc ?s = (?s, True)" and 2: "TrimSpace ?s = []"
    and 3: "[] |\<in>| records (snd (init rlDefault wWhite))"
    and 4: "[] \<in> set (List (snd (init rlDefault wWhite)))"
    by simp_all
  from ws 1 2 3 4 h show ?thesis by simp
qed

end
